theory Spec2Isabelle
  imports Complex_Main "HOL-Library.List_Lexorder" "HOL-Library.Char_ord" "HOL-Library.AList"
begin

section \<open>Data model\<close>

text \<open>
  Monetary quantities are \<^verbatim>\<open>decimal.Decimal\<close> values of the shopspring library: an
  arbitrary-precision integer coefficient with a decimal exponent. Its \<^verbatim>\<open>Add\<close>,
  \<^verbatim>\<open>Sub\<close>, \<^verbatim>\<open>Neg\<close>, \<^verbatim>\<open>Equal\<close>, \<^verbatim>\<open>LessThan\<close>, \<^verbatim>\<open>IsZero\<close> and
  \<^verbatim>\<open>IsNegative\<close> are exact, so a decimal is modelled by the rational number it denotes.
  A \<^verbatim>\<open>time.Time\<close> is modelled by an integer instant: \<^verbatim>\<open>Equal\<close> is \<open>=\<close> and
  \<^verbatim>\<open>Before\<close> is \<open><\<close>.
\<close>

type_synonym Decimal = rat
type_synonym Time = int

text \<open>
  Accounts and commodities are interned by the journal context and compared by pointer.
  An account is modelled by its type and its name, a commodity by its name;
  \<^verbatim>\<open>String()\<close> of either is its name. Go compares strings bytewise, which is the
  lexicographic order on character lists.
\<close>

datatype AccountType = ASSETS | LIABILITIES | EQUITY | INCOME | EXPENSES

datatype Account = MkAccount (Account_Type: AccountType) (Account_Name: string)

datatype Commodity = MkCommodity (Commodity_String: string)

text \<open>Source ranges: a path with a start and an end location.\<close>

type_synonym Range = "string \<times> nat \<times> nat"

text \<open>A lot (\<^verbatim>\<open>*Lot\<close>) is never inspected by the functions modelled here.\<close>

typedecl Lot

record Posting =
  Amount :: Decimal
  Credit :: Account
  Debit :: Account
  Commodity :: Commodity
  Targets :: "Commodity list"
  Lot :: "Lot option"

datatype Interval = Once | Daily | Weekly | Monthly | Quarterly | Yearly

record Period =
  Start :: Time
  End :: Time

record Accrual =
  accRange :: Range
  Interval :: Interval
  T0 :: Time
  T1 :: Time
  accAccount :: Account

text \<open>
  The add-ons of a transaction are \<^verbatim>\<open>[]interface{}\<close>; the only kind the assembler
  accepts is \<^verbatim>\<open>*Accrual\<close>, anything else makes it panic.
\<close>

datatype AddOn = AccrualAddOn Accrual | OtherAddOn

record Transaction =
  tRange :: Range
  Date :: Time
  Description :: string
  Tags :: "string list"
  Postings :: "Posting list"
  AddOns :: "AddOn list"

record Open =
  oRange :: Range
  oDate :: Time
  oAccount :: Account

record Close =
  cRange :: Range
  cDate :: Time
  cAccount :: Account

record Price =
  pRange :: Range
  pDate :: Time
  pCommodity :: Commodity
  pTarget :: Commodity
  pPrice :: Decimal

record Assertion =
  aRange :: Range
  aDate :: Time
  aAccount :: Account
  aAmount :: Decimal
  aCommodity :: Commodity

record Value =
  vRange :: Range
  vDate :: Time
  vAccount :: Account
  vAmount :: Decimal
  vCommodity :: Commodity

datatype Directive =
    DOpen Open
  | DClose Close
  | DPrice Price
  | DTransaction Transaction
  | DAssertion Assertion
  | DValue Value
  | DInclude Range string
  | DCurrency Range Time Commodity

text \<open>
  Errors are values. \<open>Panic\<close> is a Go runtime panic; the other constructors are the
  error values the stages return, named after their messages.
\<close>

datatype Error =
    Panic string
  | AlreadyOpen Account
  | AlreadyClosed Account
  | CreditNotOpen Transaction Account
  | DebitNotOpen Transaction Account
  | ValueNotOpen Value
  | AssertionNotOpen Assertion
  | AssertionFailed Assertion Decimal
  | NonzeroPosition Close
  | UnknownDirective Directive
  | NoPrice Commodity
  | NoValuation Commodity

section \<open>Postings and transactions (\<^verbatim>\<open>lib/journal/ast/directive.go\<close>)\<close>

definition NewPosting :: "Account \<Rightarrow> Account \<Rightarrow> Commodity \<Rightarrow> Decimal \<Rightarrow> Posting" where
  "NewPosting crAccount drAccount commodity amt =
     (if amt < 0
      then \<lparr>Amount = - amt, Credit = drAccount, Debit = crAccount, Commodity = commodity,
            Targets = [], Lot = None\<rparr>
      else \<lparr>Amount = amt, Credit = crAccount, Debit = drAccount, Commodity = commodity,
            Targets = [], Lot = None\<rparr>)"

definition NewPostingWithTargets ::
  "Account \<Rightarrow> Account \<Rightarrow> Commodity \<Rightarrow> Decimal \<Rightarrow> Commodity list \<Rightarrow> Posting" where
  "NewPostingWithTargets crAccount drAccount commodity amt targets =
     (NewPosting crAccount drAccount commodity amt)\<lparr>Targets := targets\<rparr>"

definition Posting_Less :: "Posting \<Rightarrow> Posting \<Rightarrow> bool" where
  "Posting_Less p p2 =
     (if Account_Name (Credit p) \<noteq> Account_Name (Credit p2)
      then Account_Name (Credit p) < Account_Name (Credit p2)
      else if Account_Name (Debit p) \<noteq> Account_Name (Debit p2)
      then Account_Name (Debit p) < Account_Name (Debit p2)
      else if Amount p \<noteq> Amount p2
      then Amount p < Amount p2
      else Commodity_String (Commodity p) < Commodity_String (Commodity p2))"

definition Posting_Equal :: "Posting \<Rightarrow> Posting \<Rightarrow> bool" where
  "Posting_Equal p p2 \<longleftrightarrow>
     Credit p = Credit p2 \<and> Debit p = Debit p2 \<and> Amount p = Amount p2 \<and>
     Commodity p = Commodity p2"

text \<open>
  The loop of \<^verbatim>\<open>Transaction.Less\<close>:
  \<^verbatim>\<open>for i < len(t.Postings) && i < len(t2.Postings) { if !Equal { return Less } }\<close>.
  Its body never changes \<open>i\<close>, so the recursive call is at the same index. The loop
  may not return; not returning is the value \<open>None\<close>.
\<close>

partial_function (option) Less_loop :: "Posting list \<Rightarrow> Posting list \<Rightarrow> nat \<Rightarrow> bool option" where
  "Less_loop ps ps2 i =
     (if i < length ps \<and> i < length ps2
      then (if \<not> Posting_Equal (ps ! i) (ps2 ! i)
            then Some (Posting_Less (ps ! i) (ps2 ! i))
            else Less_loop ps ps2 i)
      else Some (length ps < length ps2))"

definition Transaction_Less :: "Transaction \<Rightarrow> Transaction \<Rightarrow> bool option" where
  "Transaction_Less t t2 =
     (if Date t \<noteq> Date t2 then Some (Date t < Date t2)
      else if Description t \<noteq> Description t2 then Some (Description t < Description t2)
      else Less_loop (Postings t) (Postings t2) 0)"

text \<open>
  \<^verbatim>\<open>Decimal.QuoRem(d2, precision)\<close> of the decimal library: it panics on a zero
  divisor; otherwise the quotient is \<open>d / d2\<close> cut off (towards zero, as
  \<^verbatim>\<open>big.Int.QuoRem\<close> does) after \<open>precision\<close> decimal digits, and the remainder is
  \<open>d - d2 * q\<close>.
\<close>

definition trunc_rat :: "rat \<Rightarrow> int" where
  "trunc_rat x = (if 0 \<le> x then \<lfloor>x\<rfloor> else \<lceil>x\<rceil>)"

definition QuoRem :: "Decimal \<Rightarrow> Decimal \<Rightarrow> nat \<Rightarrow> Error + (Decimal \<times> Decimal)" where
  "QuoRem d d2 precision =
     (if d2 = 0 then Inl (Panic ''decimal division by 0'')
      else (let q = of_int (trunc_rat (d * 10 ^ precision / d2)) / 10 ^ precision
            in Inr (q, d - d2 * q)))"

definition isAL :: "Account \<Rightarrow> bool" where
  "isAL a \<longleftrightarrow> Account_Type a = ASSETS \<or> Account_Type a = LIABILITIES"

definition isIE :: "Account \<Rightarrow> bool" where
  "isIE a \<longleftrightarrow> Account_Type a = INCOME \<or> Account_Type a = EXPENSES"

text \<open>\<^verbatim>\<open>%d\<close> of \<^verbatim>\<open>fmt.Sprintf\<close> on a non-negative integer.\<close>

fun string_of_nat :: "nat \<Rightarrow> string" where
  "string_of_nat n =
     (if n < 10 then [''0123456789'' ! n]
      else string_of_nat (n div 10) @ [''0123456789'' ! (n mod 10)])"

declare string_of_nat.simps [simp del]

text \<open>
  The \<^verbatim>\<open>switch\<close> of \<^verbatim>\<open>Accrual.Expand\<close>: the accounts of the single transaction and
  of the period transactions, as
  \<open>(crAccountSingle, drAccountSingle, crAccountMulti, drAccountMulti)\<close>; all four start
  as the accrual's account.
\<close>

definition accrual_accounts :: "Accrual \<Rightarrow> Posting \<Rightarrow> Account \<times> Account \<times> Account \<times> Account" where
  "accrual_accounts a posting =
     (if isAL (Credit posting) \<and> isIE (Debit posting)
      then (Credit posting, accAccount a, accAccount a, Debit posting)
      else if isIE (Credit posting) \<and> isAL (Debit posting)
      then (accAccount a, Debit posting, Credit posting, accAccount a)
      else if isIE (Credit posting) \<and> isIE (Debit posting)
      then (accAccount a, accAccount a, Credit posting, Debit posting)
      else (Credit posting, Debit posting, accAccount a, accAccount a))"

text \<open>
  \<^verbatim>\<open>Accrual.Expand\<close>. \<^verbatim>\<open>date.Periods\<close> is not part of the available source and is
  a parameter. \<^verbatim>\<open>t.Postings[0]\<close> panics on a transaction without postings, and
  \<^verbatim>\<open>QuoRem\<close> panics when there is no period.
\<close>

definition accrual_transaction ::
  "Transaction \<Rightarrow> Posting \<Rightarrow> Account \<Rightarrow> Account \<Rightarrow> Decimal \<Rightarrow> Decimal \<Rightarrow> nat \<Rightarrow> nat \<times> Period
     \<Rightarrow> Transaction" where
  "accrual_transaction t posting crAccountMulti drAccountMulti amount rem n ip =
     \<lparr>tRange = tRange t, Date = End (snd ip),
      Description = Description t @ '' (accrual '' @ string_of_nat (fst ip + 1) @ ''/'' @
                    string_of_nat n @ '')'',
      Tags = Tags t,
      Postings = [NewPosting crAccountMulti drAccountMulti (Commodity posting)
                    (if fst ip = 0 then amount + rem else amount)],
      AddOns = []\<rparr>"

definition Accrual_Expand ::
  "(Time \<Rightarrow> Time \<Rightarrow> Interval \<Rightarrow> Period list) \<Rightarrow> Accrual \<Rightarrow> Transaction \<Rightarrow> Error + Transaction list" where
  "Accrual_Expand Periods a t =
     (case Postings t of
        [] \<Rightarrow> Inl (Panic ''index out of range'')
      | posting # _ \<Rightarrow>
          (case accrual_accounts a posting of
             (crAccountSingle, drAccountSingle, crAccountMulti, drAccountMulti) \<Rightarrow>
               (let periods = Periods (T0 a) (T1 a) (Interval a) in
                (case QuoRem (Amount posting) (of_nat (length periods)) 1 of
                   Inl e \<Rightarrow> Inl e
                 | Inr (amount, rem) \<Rightarrow>
                     Inr ((if crAccountMulti \<noteq> drAccountMulti
                           then map (accrual_transaction t posting crAccountMulti drAccountMulti
                                       amount rem (length periods))
                                  (enumerate 0 periods)
                           else [])
                          @ (if crAccountSingle \<noteq> drAccountSingle
                             then [\<lparr>tRange = tRange t, Date = Date t,
                                    Description = Description t, Tags = Tags t,
                                    Postings = [NewPosting crAccountSingle drAccountSingle
                                                  (Commodity posting) (Amount posting)],
                                    AddOns = []\<rparr>]
                             else []))))))"


section \<open>The account and commodity filter\<close>

text \<open>
  \<^verbatim>\<open>journal.Filter\<close> holds two regular expressions; its methods
  \<^verbatim>\<open>MatchAccount\<close> and \<^verbatim>\<open>MatchCommodity\<close> are the two predicates.
\<close>

record Filter =
  MatchAccount :: "Account \<Rightarrow> bool"
  MatchCommodity :: "Commodity \<Rightarrow> bool"

definition Posting_Matches :: "Posting \<Rightarrow> Filter \<Rightarrow> bool" where
  "Posting_Matches p b \<longleftrightarrow>
     (MatchAccount b (Credit p) \<or> MatchAccount b (Debit p)) \<and> MatchCommodity b (Commodity p)"

section \<open>Days and running amounts\<close>

text \<open>
  A position is \<^verbatim>\<open>CommodityAccount{Account, Commodity}\<close>. \<^verbatim>\<open>amounts.Amounts\<close> is a
  Go map from positions to decimals, modelled by an association list that holds each
  key at most once; the loops over the map visit the entries in the order of the list.
\<close>

type_synonym CommodityAccount = "Account \<times> Commodity"
type_synonym Amounts = "(CommodityAccount \<times> Decimal) list"

record Day =
  dDate :: Time
  Prices :: "Price list"
  Assertions :: "Assertion list"
  Values :: "Value list"
  Openings :: "Open list"
  Transactions :: "Transaction list"
  Closings :: "Close list"
  Amounts :: Amounts

text \<open>
  Modelled from the spec: the methods \<^verbatim>\<open>Amount\<close>, \<^verbatim>\<open>Add\<close> and \<^verbatim>\<open>Book\<close> of
  \<^verbatim>\<open>Amounts\<close> (\<^verbatim>\<open>lib/common/amounts\<close>) are not part of the available source.
  The amount of a position that is not in the map is zero; \<^verbatim>\<open>Add(k, x)\<close> is
  \<^verbatim>\<open>amounts[k] += x\<close>; and booking \<open>x\<close> of commodity \<open>k\<close> from credit \<open>c\<close> to debit
  \<open>d\<close> is \<^verbatim>\<open>amounts[(c,k)] -= x; amounts[(d,k)] += x\<close>, which the variant of the
  balancer that has no \<^verbatim>\<open>Book\<close> writes as the two calls
  \<^verbatim>\<open>Add((c,k), x.Neg())\<close> and \<^verbatim>\<open>Add((d,k), x)\<close>.
\<close>

definition Amounts_Amount :: "Amounts \<Rightarrow> Account \<Rightarrow> Commodity \<Rightarrow> Decimal" where
  "Amounts_Amount am a c = (case map_of am (a, c) of None \<Rightarrow> 0 | Some x \<Rightarrow> x)"

definition Amounts_Add :: "Amounts \<Rightarrow> CommodityAccount \<Rightarrow> Decimal \<Rightarrow> Amounts" where
  "Amounts_Add am key x = AList.update key (Amounts_Amount am (fst key) (snd key) + x) am"

definition Amounts_Book :: "Amounts \<Rightarrow> Account \<Rightarrow> Account \<Rightarrow> Decimal \<Rightarrow> Commodity \<Rightarrow> Amounts" where
  "Amounts_Book am cr dr a c = Amounts_Add (Amounts_Add am (cr, c) (- a)) (dr, c) a"

section \<open>The AST assembler (\<^verbatim>\<open>ASTBuilder.Source2\<close>)\<close>

text \<open>
  The AST is the map \<^verbatim>\<open>Days\<close> from dates to days. Its \<^verbatim>\<open>Add...\<close> methods file a
  directive in the day of its date, which is created on first use.
\<close>

type_synonym AST = "Time \<rightharpoonup> Day"

definition AST_Day :: "AST \<Rightarrow> Time \<Rightarrow> Day" where
  "AST_Day ast d =
     (case ast d of
        None \<Rightarrow> \<lparr>dDate = d, Prices = [], Assertions = [], Values = [], Openings = [],
                 Transactions = [], Closings = [], Amounts = []\<rparr>
      | Some day \<Rightarrow> day)"

definition AddOpen :: "AST \<Rightarrow> Open \<Rightarrow> AST" where
  "AddOpen ast x = (let d = AST_Day ast (oDate x) in ast(oDate x \<mapsto> d\<lparr>Openings := Openings d @ [x]\<rparr>))"

definition AddPrice :: "AST \<Rightarrow> Price \<Rightarrow> AST" where
  "AddPrice ast x = (let d = AST_Day ast (pDate x) in ast(pDate x \<mapsto> d\<lparr>Prices := Prices d @ [x]\<rparr>))"

definition AddTransaction :: "AST \<Rightarrow> Transaction \<Rightarrow> AST" where
  "AddTransaction ast x =
     (let d = AST_Day ast (Date x) in ast(Date x \<mapsto> d\<lparr>Transactions := Transactions d @ [x]\<rparr>))"

definition AddValue :: "AST \<Rightarrow> Value \<Rightarrow> AST" where
  "AddValue ast x = (let d = AST_Day ast (vDate x) in ast(vDate x \<mapsto> d\<lparr>Values := Values d @ [x]\<rparr>))"

definition AddAssertion :: "AST \<Rightarrow> Assertion \<Rightarrow> AST" where
  "AddAssertion ast x =
     (let d = AST_Day ast (aDate x) in ast(aDate x \<mapsto> d\<lparr>Assertions := Assertions d @ [x]\<rparr>))"

definition AddClose :: "AST \<Rightarrow> Close \<Rightarrow> AST" where
  "AddClose ast x = (let d = AST_Day ast (cDate x) in ast(cDate x \<mapsto> d\<lparr>Closings := Closings d @ [x]\<rparr>))"

text \<open>The loop over the add-ons of a transaction.\<close>

fun Source2_addOns ::
  "(Time \<Rightarrow> Time \<Rightarrow> Interval \<Rightarrow> Period list) \<Rightarrow> AST \<Rightarrow> Transaction \<Rightarrow> AddOn list \<Rightarrow> Error + AST" where
  "Source2_addOns Periods ast t [] = Inr ast"
| "Source2_addOns Periods ast t (AccrualAddOn acc # rest) =
     (case Accrual_Expand Periods acc t of
        Inl e \<Rightarrow> Inl e
      | Inr tss \<Rightarrow> Source2_addOns Periods (fold (\<lambda>ts ast'. AddTransaction ast' ts) tss ast) t rest)"
| "Source2_addOns Periods ast t (OtherAddOn # rest) = Inl (Panic ''unknown addon'')"

text \<open>The type switch on one directive of the parser's stream.\<close>

fun Source2_directive ::
  "(Time \<Rightarrow> Time \<Rightarrow> Interval \<Rightarrow> Period list) \<Rightarrow> Filter \<Rightarrow> AST \<Rightarrow> Directive \<Rightarrow> Error + AST" where
  "Source2_directive Periods f ast (DOpen t) = Inr (AddOpen ast t)"
| "Source2_directive Periods f ast (DPrice t) = Inr (AddPrice ast t)"
| "Source2_directive Periods f ast (DTransaction t) =
     (let filtered = filter (\<lambda>p. Posting_Matches p f) (Postings t) in
      if length filtered = 0 then Inr ast
      else (let t' = (if length filtered < length (Postings t) then t\<lparr>Postings := filtered\<rparr> else t) in
            if length (AddOns t') > 0 then Source2_addOns Periods ast t' (AddOns t')
            else Inr (AddTransaction ast t')))"
| "Source2_directive Periods f ast (DAssertion t) =
     (if \<not> MatchAccount f (aAccount t) then Inr ast
      else if \<not> MatchCommodity f (aCommodity t) then Inr ast
      else Inr (AddAssertion ast t))"
| "Source2_directive Periods f ast (DValue t) =
     (if \<not> MatchAccount f (vAccount t) then Inr ast
      else if \<not> MatchCommodity f (vCommodity t) then Inr ast
      else Inr (AddValue ast t))"
| "Source2_directive Periods f ast (DClose t) =
     (if \<not> MatchAccount f (cAccount t) then Inr ast
      else Inr (AddClose ast t))"
| "Source2_directive Periods f ast d = Inl (UnknownDirective d)"

fun Source2_loop ::
  "(Time \<Rightarrow> Time \<Rightarrow> Interval \<Rightarrow> Period list) \<Rightarrow> Filter \<Rightarrow> AST \<Rightarrow> Directive list \<Rightarrow> Error + AST" where
  "Source2_loop Periods f ast [] = Inr ast"
| "Source2_loop Periods f ast (d # ds) =
     (case Source2_directive Periods f ast d of
        Inl e \<Rightarrow> Inl e
      | Inr ast' \<Rightarrow> Source2_loop Periods f ast' ds)"

text \<open>
  \<^verbatim>\<open>Source2\<close> starts from an AST without days and reads the stream to its end; the
  days of the AST it has built are what it then emits.
\<close>

definition Source2 ::
  "(Time \<Rightarrow> Time \<Rightarrow> Interval \<Rightarrow> Period list) \<Rightarrow> Filter \<Rightarrow> Directive list \<Rightarrow> Error + AST" where
  "Source2 Periods f ds = Source2_loop Periods f Map.empty ds"

text \<open>The Close, Assertion and Value directives of a stream, in the order of the stream.\<close>

fun stream_closes :: "Directive list \<Rightarrow> Close list" where
  "stream_closes [] = []"
| "stream_closes (DClose c # ds) = c # stream_closes ds"
| "stream_closes (_ # ds) = stream_closes ds"

fun stream_assertions :: "Directive list \<Rightarrow> Assertion list" where
  "stream_assertions [] = []"
| "stream_assertions (DAssertion a # ds) = a # stream_assertions ds"
| "stream_assertions (_ # ds) = stream_assertions ds"

fun stream_values :: "Directive list \<Rightarrow> Value list" where
  "stream_values [] = []"
| "stream_values (DValue v # ds) = v # stream_values ds"
| "stream_values (_ # ds) = stream_values ds"

text \<open>What the AST holds of these three kinds on one date.\<close>

definition filed :: "AST \<Rightarrow> Time \<Rightarrow> Assertion list \<times> Value list \<times> Close list" where
  "filed ast d = (Assertions (AST_Day ast d), Values (AST_Day ast d), Closings (AST_Day ast d))"

section \<open>The balancer (\<^verbatim>\<open>lib/journal/process/balancer.go\<close>)\<close>

text \<open>
  \<^verbatim>\<open>journal.Context\<close> is used for one thing: the valuation account of an account.
  \<^verbatim>\<open>ValuationAccountFor\<close> is not part of the available source and is a field of the
  context.
\<close>

record Context =
  ValuationAccountFor :: "Account \<Rightarrow> Account"

text \<open>
  \<^verbatim>\<open>accounts\<close> is \<^verbatim>\<open>map[*journal.Account]bool\<close>. Only \<^verbatim>\<open>true\<close> is ever stored, so
  it is the set of its keys.
\<close>

type_synonym accounts = "Account set"

definition accounts_Open :: "accounts \<Rightarrow> Account \<Rightarrow> Error + accounts" where
  "accounts_Open oa a = (if a \<in> oa then Inl (AlreadyOpen a) else Inr (insert a oa))"

definition accounts_Close :: "accounts \<Rightarrow> Account \<Rightarrow> Error + accounts" where
  "accounts_Close oa a = (if a \<notin> oa then Inl (AlreadyClosed a) else Inr (oa - {a}))"

definition IsOpen :: "accounts \<Rightarrow> Account \<Rightarrow> bool" where
  "IsOpen oa a \<longleftrightarrow> a \<in> oa \<or> Account_Type a = EQUITY"

fun openings_loop :: "accounts \<Rightarrow> Open list \<Rightarrow> Error + accounts" where
  "openings_loop oa [] = Inr oa"
| "openings_loop oa (x # xs) =
     (case accounts_Open oa (oAccount x) of
        Inl e \<Rightarrow> Inl e
      | Inr oa' \<Rightarrow> openings_loop oa' xs)"

definition processOpenings :: "accounts \<Rightarrow> Day \<Rightarrow> Error + accounts" where
  "processOpenings oa d = openings_loop oa (Openings d)"

fun postings_loop :: "accounts \<Rightarrow> Amounts \<Rightarrow> Transaction \<Rightarrow> Posting list \<Rightarrow> Error + Amounts" where
  "postings_loop oa am t [] = Inr am"
| "postings_loop oa am t (p # ps) =
     (if \<not> IsOpen oa (Credit p) then Inl (CreditNotOpen t (Credit p))
      else if \<not> IsOpen oa (Debit p) then Inl (DebitNotOpen t (Debit p))
      else postings_loop oa (Amounts_Book am (Credit p) (Debit p) (Amount p) (Commodity p)) t ps)"

fun transactions_loop :: "accounts \<Rightarrow> Amounts \<Rightarrow> Transaction list \<Rightarrow> Error + Amounts" where
  "transactions_loop oa am [] = Inr am"
| "transactions_loop oa am (t # ts) =
     (case postings_loop oa am t (Postings t) of
        Inl e \<Rightarrow> Inl e
      | Inr am' \<Rightarrow> transactions_loop oa am' ts)"

definition processTransactions :: "accounts \<Rightarrow> Amounts \<Rightarrow> Day \<Rightarrow> Error + Amounts" where
  "processTransactions oa am d = transactions_loop oa am (Transactions d)"

text \<open>
  The body of the loop of \<^verbatim>\<open>processValues\<close> after the check of the account: the
  posting, its booking, and the transaction that is appended.
\<close>

definition value_posting :: "Context \<Rightarrow> Amounts \<Rightarrow> Value \<Rightarrow> Posting" where
  "value_posting ctx am v =
     NewPostingWithTargets (ValuationAccountFor ctx (vAccount v)) (vAccount v) (vCommodity v)
       (vAmount v - Amounts_Amount am (vAccount v) (vCommodity v)) [vCommodity v]"

definition value_transaction :: "Value \<Rightarrow> Posting \<Rightarrow> Transaction" where
  "value_transaction v posting =
     \<lparr>tRange = ([], 0, 0), Date = vDate v,
      Description = ''Valuation adjustment for '' @ Commodity_String (vCommodity v) @ '' in '' @
                    Account_Name (vAccount v),
      Tags = [], Postings = [posting], AddOns = []\<rparr>"

fun values_loop ::
  "Context \<Rightarrow> accounts \<Rightarrow> Amounts \<Rightarrow> Transaction list \<Rightarrow> Value list
     \<Rightarrow> Error + (Transaction list \<times> Amounts)" where
  "values_loop ctx oa am transactions [] = Inr (transactions, am)"
| "values_loop ctx oa am transactions (v # vs) =
     (if \<not> IsOpen oa (vAccount v) then Inl (ValueNotOpen v)
      else (let posting = value_posting ctx am v;
                am' = Amounts_Book am (Credit posting) (Debit posting) (Amount posting)
                        (Commodity posting)
            in values_loop ctx oa am' (transactions @ [value_transaction v posting]) vs))"

definition processValues ::
  "Context \<Rightarrow> accounts \<Rightarrow> Amounts \<Rightarrow> Day \<Rightarrow> Error + (Transaction list \<times> Amounts)" where
  "processValues ctx oa am d = values_loop ctx oa am [] (Values d)"

text \<open>
  \<^verbatim>\<open>va, ok := amts[position]; !ok || !va.Equal(a.Amount)\<close>: a key that is not in the
  map reads as the zero decimal with \<open>ok = false\<close>.
\<close>

fun assertions_loop :: "accounts \<Rightarrow> Amounts \<Rightarrow> Assertion list \<Rightarrow> Error + unit" where
  "assertions_loop oa am [] = Inr ()"
| "assertions_loop oa am (a # as) =
     (if \<not> IsOpen oa (aAccount a) then Inl (AssertionNotOpen a)
      else (case map_of am (aAccount a, aCommodity a) of
              None \<Rightarrow> Inl (AssertionFailed a 0)
            | Some va \<Rightarrow>
                if va \<noteq> aAmount a then Inl (AssertionFailed a va)
                else assertions_loop oa am as))"

definition processAssertions :: "accounts \<Rightarrow> Amounts \<Rightarrow> Day \<Rightarrow> Error + unit" where
  "processAssertions oa am d = assertions_loop oa am (Assertions d)"

text \<open>
  The inner loop of \<^verbatim>\<open>processClosings\<close> over the entries of the map: an entry of
  another account is kept, a nonzero entry of the account is an error, a zero entry of
  the account is deleted.
\<close>

fun positions_loop :: "Close \<Rightarrow> Amounts \<Rightarrow> Error + Amounts" where
  "positions_loop c [] = Inr []"
| "positions_loop c ((pos, amount) # rest) =
     (if fst pos \<noteq> cAccount c
      then (case positions_loop c rest of
              Inl e \<Rightarrow> Inl e
            | Inr rest' \<Rightarrow> Inr ((pos, amount) # rest'))
      else if amount \<noteq> 0 then Inl (NonzeroPosition c)
      else positions_loop c rest)"

fun closings_loop :: "accounts \<Rightarrow> Amounts \<Rightarrow> Close list \<Rightarrow> Error + (accounts \<times> Amounts)" where
  "closings_loop oa am [] = Inr (oa, am)"
| "closings_loop oa am (c # cs) =
     (case positions_loop c am of
        Inl e \<Rightarrow> Inl e
      | Inr am' \<Rightarrow>
          (case accounts_Close oa (cAccount c) of
             Inl e \<Rightarrow> Inl e
           | Inr oa' \<Rightarrow> closings_loop oa' am' cs))"

definition processClosings :: "accounts \<Rightarrow> Amounts \<Rightarrow> Day \<Rightarrow> Error + (accounts \<times> Amounts)" where
  "processClosings oa am d = closings_loop oa am (Closings d)"

text \<open>
  The body of the loop of \<^verbatim>\<open>Process2\<close> on one day: the state is the set of open
  accounts and the running amounts; the result is the new state and the day that is
  pushed downstream, with the synthesised transactions appended and a clone of the
  amounts.
\<close>

definition Process2_day ::
  "Context \<Rightarrow> accounts \<times> Amounts \<Rightarrow> Day \<Rightarrow> Error + ((accounts \<times> Amounts) \<times> Day)" where
  "Process2_day ctx st d =
     (case processOpenings (fst st) d of
        Inl e \<Rightarrow> Inl e
      | Inr oa \<Rightarrow>
     (case processTransactions oa (snd st) d of
        Inl e \<Rightarrow> Inl e
      | Inr am1 \<Rightarrow>
     (case processValues ctx oa am1 d of
        Inl e \<Rightarrow> Inl e
      | Inr (transactions, am2) \<Rightarrow>
     (case processAssertions oa am2 d of
        Inl e \<Rightarrow> Inl e
      | Inr _ \<Rightarrow>
     (case processClosings oa am2 d of
        Inl e \<Rightarrow> Inl e
      | Inr (oa', am3) \<Rightarrow>
          Inr ((oa', am3),
               d\<lparr>Transactions := Transactions d @ transactions, Amounts := am3\<rparr>))))))"

fun Process2_loop ::
  "Context \<Rightarrow> accounts \<times> Amounts \<Rightarrow> Day list \<Rightarrow> Error + ((accounts \<times> Amounts) \<times> Day list)" where
  "Process2_loop ctx st [] = Inr (st, [])"
| "Process2_loop ctx st (d # ds) =
     (case Process2_day ctx st d of
        Inl e \<Rightarrow> Inl e
      | Inr (st', d') \<Rightarrow>
          (case Process2_loop ctx st' ds of
             Inl e \<Rightarrow> Inl e
           | Inr (st'', ds') \<Rightarrow> Inr (st'', d' # ds')))"

text \<open>
  \<^verbatim>\<open>Process2\<close>: both maps start empty. The result is the final state together with
  the days pushed downstream, or the first error.
\<close>

definition Process2 :: "Context \<Rightarrow> Day list \<Rightarrow> Error + ((accounts \<times> Amounts) \<times> Day list)" where
  "Process2 ctx ds = Process2_loop ctx ({}, []) ds"

text \<open>
  The sum of the amounts of the positions of one commodity, over the accounts of every
  type.
\<close>

definition commodity_sum :: "Amounts \<Rightarrow> Commodity \<Rightarrow> Decimal" where
  "commodity_sum am k =
     (\<Sum>pos \<in> {pos \<in> fst ` set am. snd pos = k}. Amounts_Amount am (fst pos) (snd pos))"

text \<open>
  The same sum over the entries of the association list; the two agree when each position
  is held once.
\<close>

definition entries_sum :: "Amounts \<Rightarrow> Commodity \<Rightarrow> Decimal" where
  "entries_sum am k = sum_list (map snd (filter (\<lambda>e. snd (fst e) = k) am))"

section \<open>Valuation gains (\<^verbatim>\<open>valuateGains\<close> of \<^verbatim>\<open>Balance\<close>, \<^verbatim>\<open>lib/journal/process.go\<close>)\<close>

text \<open>
  In \<^verbatim>\<open>process.go\<close> a transaction is made by \<^verbatim>\<open>TransactionBuilder{...}.Build()\<close> from the
  postings of \<^verbatim>\<open>PostingBuilder{...}.Build()\<close>. Neither \<^verbatim>\<open>Build\<close> is part of the
  available source: a synthesised transaction is represented by the fields given to its
  two builders. A field that the code leaves out is the zero value of its type.
\<close>

record PostingBuilder =
  pbCredit :: Account
  pbDebit :: Account
  pbCommodity :: Commodity
  pbAmount :: Decimal
  pbValue :: Decimal
  pbTargets :: "Commodity list"

record TransactionBuilder =
  tbDate :: Time
  tbDescription :: string
  tbPostings :: PostingBuilder

text \<open>
  What \<^verbatim>\<open>valuateGains\<close> uses of a \<^verbatim>\<open>journal.Day\<close>: its date, its transactions, and
  its normalised prices. \<^verbatim>\<open>NormalizedPrices.Valuate\<close> is not part of the available
  source; the normalised prices of a day are modelled by that method, which returns the
  value of an amount of a commodity or an error.
\<close>

record JDay =
  jDate :: Time
  jTransactions :: "TransactionBuilder list"
  Normalized_Valuate :: "Commodity \<Rightarrow> Decimal \<Rightarrow> Error + Decimal"

text \<open>The transaction that \<^verbatim>\<open>valuateGains\<close> appends for a position and its gain.\<close>

definition gain_transaction :: "Context \<Rightarrow> JDay \<Rightarrow> CommodityAccount \<Rightarrow> Decimal \<Rightarrow> TransactionBuilder" where
  "gain_transaction jctx d pos gain =
     \<lparr>tbDate = jDate d,
      tbDescription = ''Adjust value of '' @ Commodity_String (snd pos) @ '' in account '' @
                      Account_Name (fst pos),
      tbPostings = \<lparr>pbCredit = ValuationAccountFor jctx (fst pos), pbDebit = fst pos,
                     pbCommodity = snd pos, pbAmount = 0, pbValue = gain,
                     pbTargets = [snd pos]\<rparr>\<rparr>"

text \<open>
  The loop of \<^verbatim>\<open>valuateGains\<close> over the entries of the running amounts. Its state is
  the day, to which transactions are appended, and the running values. \<open>v\<close> is the
  valuation commodity; the function is called only when there is one.
\<close>

fun valuateGains_loop ::
  "Context \<Rightarrow> Commodity \<Rightarrow> JDay \<Rightarrow> Amounts \<Rightarrow> Amounts \<Rightarrow> Error + (JDay \<times> Amounts)" where
  "valuateGains_loop jctx v d values [] = Inr (d, values)"
| "valuateGains_loop jctx v d values ((pos, amt) # rest) =
     (if snd pos = v then valuateGains_loop jctx v d values rest
      else if \<not> isAL (fst pos) then valuateGains_loop jctx v d values rest
      else (case Normalized_Valuate d (snd pos) amt of
              Inl err \<Rightarrow> Inl (NoValuation (snd pos))
            | Inr val \<Rightarrow>
                (let gain = val - Amounts_Amount values (fst pos) (snd pos) in
                 if gain = 0 then valuateGains_loop jctx v d values rest
                 else (let credit = ValuationAccountFor jctx (fst pos) in
                       valuateGains_loop jctx v
                         (d\<lparr>jTransactions := jTransactions d @ [gain_transaction jctx d pos gain]\<rparr>)
                         (Amounts_Add (Amounts_Add values pos gain) (credit, snd pos) (- gain))
                         rest))))"

definition valuateGains ::
  "Context \<Rightarrow> Commodity \<Rightarrow> Amounts \<Rightarrow> Amounts \<Rightarrow> JDay \<Rightarrow> Error + (JDay \<times> Amounts)" where
  "valuateGains jctx v amounts values d = valuateGains_loop jctx v d values amounts"

text \<open>
  The gain of a position: the value of its amount less its running value, when the
  valuation succeeds.
\<close>

definition position_gain :: "JDay \<Rightarrow> Amounts \<Rightarrow> CommodityAccount \<times> Decimal \<Rightarrow> Decimal" where
  "position_gain d values e =
     (case Normalized_Valuate d (snd (fst e)) (snd e) of
        Inl err \<Rightarrow> 0
      | Inr val \<Rightarrow> val - Amounts_Amount values (fst (fst e)) (snd (fst e)))"

text \<open>
  The positions that \<^verbatim>\<open>valuateGains\<close> valuates: those of asset and liability accounts
  (\<^verbatim>\<open>Account.IsAL\<close>, the test of \<open>isAL\<close>) in a commodity other than \<open>v\<close>.
\<close>

definition valuated :: "Commodity \<Rightarrow> CommodityAccount \<times> Decimal \<Rightarrow> bool" where
  "valuated v e \<longleftrightarrow> snd (fst e) \<noteq> v \<and> isAL (fst (fst e))"

section \<open>Example journals\<close>

text \<open>
  The accounts, the commodity and the directives of the concrete journals at which the
  theorems below are evaluated. The context's valuation account of \<open>a\<close> is
  \<^verbatim>\<open>Equity:Valuation:<a>\<close>.
\<close>

abbreviation ex_cash :: Account where "ex_cash \<equiv> MkAccount ASSETS ''Assets:Cash''"
abbreviation ex_salary :: Account where "ex_salary \<equiv> MkAccount INCOME ''Income:Salary''"
abbreviation ex_usd :: Commodity where "ex_usd \<equiv> MkCommodity ''USD''"
abbreviation ex_ctx :: Context where
  "ex_ctx \<equiv> \<lparr>ValuationAccountFor = (\<lambda>a. MkAccount EQUITY (''Equity:Valuation:'' @ Account_Name a))\<rparr>"
abbreviation ex_day :: "Time \<Rightarrow> Day" where
  "ex_day d \<equiv> \<lparr>dDate = d, Prices = [], Assertions = [], Values = [], Openings = [],
               Transactions = [], Closings = [], Amounts = []\<rparr>"
abbreviation ex_open :: "Time \<Rightarrow> Account \<Rightarrow> Open" where
  "ex_open d a \<equiv> \<lparr>oRange = ([], 0, 0), oDate = d, oAccount = a\<rparr>"
abbreviation ex_transaction :: "Time \<Rightarrow> string \<Rightarrow> Posting list \<Rightarrow> Transaction" where
  "ex_transaction d s ps \<equiv>
     \<lparr>tRange = ([], 0, 0), Date = d, Description = s, Tags = [], Postings = ps, AddOns = []\<rparr>"
abbreviation ex_value :: "Time \<Rightarrow> Account \<Rightarrow> Decimal \<Rightarrow> Commodity \<Rightarrow> Value" where
  "ex_value d a x c \<equiv> \<lparr>vRange = ([], 0, 0), vDate = d, vAccount = a, vAmount = x, vCommodity = c\<rparr>"

abbreviation ex_equity :: Account where "ex_equity \<equiv> MkAccount EQUITY ''Equity:Opening''"
abbreviation ex_close :: "Time \<Rightarrow> Account \<Rightarrow> Close" where
  "ex_close d a \<equiv> \<lparr>cRange = ([], 0, 0), cDate = d, cAccount = a\<rparr>"


abbreviation ex_foreign :: Account where "ex_foreign \<equiv> MkAccount ASSETS ''Assets:Foreign''"
abbreviation ex_eur :: Commodity where "ex_eur \<equiv> MkCommodity ''EUR''"
abbreviation ex_jday :: JDay where
  "ex_jday \<equiv> \<lparr>jDate = 3, jTransactions = [],
               Normalized_Valuate = (\<lambda>c a. if c = ex_eur then Inr (a * (6 / 5)) else Inl (NoPrice c))\<rparr>"

section \<open>The order on transactions\<close>

lemma Less_loop_returns_only_off_equal:
  assumes "Less_loop ps ps2 i = Some y"
  shows "\<not> (i < length ps \<and> i < length ps2 \<and> Posting_Equal (ps ! i) (ps2 ! i))"
proof -
  let ?P = "\<lambda>ps ps2 i (y::bool).
              \<not> (i < length ps \<and> i < length ps2 \<and> Posting_Equal (ps ! i) (ps2 ! i))"
  have "?P ps ps2 i y"
  proof (rule Less_loop.raw_induct[where P = ?P, OF _ assms])
    fix f ps ps2 i y
    assume IH: "\<And>ps ps2 i y. f ps ps2 i = Some y \<Longrightarrow> ?P ps ps2 i y"
      and step: "(if i < length ps \<and> i < length ps2
         then (if \<not> Posting_Equal (ps ! i) (ps2 ! i)
               then Some (Posting_Less (ps ! i) (ps2 ! i))
               else f ps ps2 i)
         else Some (length ps < length ps2)) = Some y"
    show "?P ps ps2 i y"
      using IH[of ps ps2 i y] step by (auto split: if_splits)
  qed
  then show ?thesis .
qed

lemma Less_loop_diverges:
  "i < length ps \<Longrightarrow> i < length ps2 \<Longrightarrow> Posting_Equal (ps ! i) (ps2 ! i) \<Longrightarrow>
   Less_loop ps ps2 i = None"
  using Less_loop_returns_only_off_equal[of ps ps2 i]
  by (cases "Less_loop ps ps2 i") auto

lemma Transaction_Less_diverges:
  assumes "Date t = Date t2" and "Description t = Description t2"
    and "Postings t = p # ps" and "Postings t2 = p2 # ps2" and "Posting_Equal p p2"
  shows "Transaction_Less t t2 = None"
  using assms Less_loop_diverges[of 0 "Postings t" "Postings t2"]
  by (simp add: Transaction_Less_def)

text \<open>
  C9. The claim is that the comparison of transactions returns a result for every pair,
  pairs with equal leading postings included. The loop of \<^verbatim>\<open>Transaction.Less\<close> has
  no increment: on two transactions of the same date and description whose first
  postings are equal it never returns. Here: a transaction compared with itself.
\<close>

theorem C9_Transaction_Less_no_result:
  "Transaction_Less
     \<lparr>tRange = ([], 0, 0), Date = 1, Description = ''Pay'', Tags = [],
      Postings = [NewPosting (MkAccount INCOME ''Income:Salary'') (MkAccount ASSETS ''Assets:Cash'')
                    (MkCommodity ''USD'') 100],
      AddOns = []\<rparr>
     \<lparr>tRange = ([], 0, 0), Date = 1, Description = ''Pay'', Tags = [],
      Postings = [NewPosting (MkAccount INCOME ''Income:Salary'') (MkAccount ASSETS ''Assets:Cash'')
                    (MkCommodity ''USD'') 100],
      AddOns = []\<rparr>
   = None"
  by (rule Transaction_Less_diverges) (simp_all add: Posting_Equal_def)


section \<open>Balance assertions\<close>

lemma assertions_loop_ok:
  "(assertions_loop oa am as = Inr ()) =
   (\<forall>a\<in>set as. IsOpen oa (aAccount a) \<and>
      map_of am (aAccount a, aCommodity a) = Some (aAmount a))"
  by (induction as) (auto split: option.splits)

lemma assertions_loop_error:
  "assertions_loop oa am as = Inl e \<Longrightarrow>
   \<exists>a\<in>set as.
      (\<not> IsOpen oa (aAccount a) \<and> e = AssertionNotOpen a) \<or>
      (IsOpen oa (aAccount a) \<and>
       e = AssertionFailed a (Amounts_Amount am (aAccount a) (aCommodity a)) \<and>
       map_of am (aAccount a, aCommodity a) \<noteq> Some (aAmount a))"
proof (induction as)
  case Nil
  then show ?case by simp
next
  case (Cons a as)
  show ?case
  proof (cases "IsOpen oa (aAccount a)")
    case False
    with Cons.prems show ?thesis by simp
  next
    case isopen: True
    show ?thesis
    proof (cases "map_of am (aAccount a, aCommodity a)")
      case None
      with isopen Cons.prems show ?thesis by (simp add: Amounts_Amount_def)
    next
      case (Some va)
      show ?thesis
      proof (cases "va = aAmount a")
        case True
        with isopen Some Cons.prems have "assertions_loop oa am as = Inl e" by simp
        with Cons.IH show ?thesis by auto
      next
        case False
        with isopen Some Cons.prems show ?thesis by (simp add: Amounts_Amount_def)
      qed
    qed
  qed
qed

text \<open>
  C3. \<^verbatim>\<open>processAssertions\<close> succeeds exactly when every assertion of the day is on an
  open account whose position is a key of the running amounts with exactly the asserted
  value. When it fails, the error is that of an assertion of the day: either its account
  is not open, or the account is open and the error is the assertion error, the position
  being absent from the map or different from the asserted amount. A position that was
  never booked is absent, so an assertion of 0 on it fails.
\<close>

theorem C3_assertion_exact:
  "((processAssertions oa am d = Inr ()) \<longleftrightarrow>
      (\<forall>a\<in>set (Assertions d). IsOpen oa (aAccount a) \<and>
         map_of am (aAccount a, aCommodity a) = Some (aAmount a))) \<and>
   (\<forall>e. processAssertions oa am d = Inl e \<longrightarrow>
      (\<exists>a\<in>set (Assertions d).
         (\<not> IsOpen oa (aAccount a) \<and> e = AssertionNotOpen a) \<or>
         (IsOpen oa (aAccount a) \<and>
          e = AssertionFailed a (Amounts_Amount am (aAccount a) (aCommodity a)) \<and>
          map_of am (aAccount a, aCommodity a) \<noteq> Some (aAmount a))))"
  using assertions_loop_ok[of oa am "Assertions d"] assertions_loop_error[of oa am "Assertions d"]
  unfolding processAssertions_def by blast

text \<open>
  At a concrete day: the account \<^verbatim>\<open>Assets:Cash\<close> is open, nothing was ever booked, and
  the day asserts 0 USD. The assertion fails.
\<close>

theorem C3_assertion_exact_witness:
  "IsOpen {MkAccount ASSETS ''Assets:Cash''} (MkAccount ASSETS ''Assets:Cash'') \<and>
   processAssertions {MkAccount ASSETS ''Assets:Cash''} []
     \<lparr>dDate = 3, Prices = [],
      Assertions = [\<lparr>aRange = ([], 0, 0), aDate = 3,
                     aAccount = MkAccount ASSETS ''Assets:Cash'',
                     aAmount = 0, aCommodity = MkCommodity ''USD''\<rparr>],
      Values = [], Openings = [], Transactions = [], Closings = [], Amounts = []\<rparr>
   \<noteq> Inr ()"
  using C3_assertion_exact[of "{MkAccount ASSETS ''Assets:Cash''}" "[]"
      "\<lparr>dDate = 3, Prices = [],
        Assertions = [\<lparr>aRange = ([], 0, 0), aDate = 3,
                       aAccount = MkAccount ASSETS ''Assets:Cash'',
                       aAmount = 0, aCommodity = MkCommodity ''USD''\<rparr>],
        Values = [], Openings = [], Transactions = [], Closings = [], Amounts = []\<rparr>"]
  by (simp add: IsOpen_def)


section \<open>Closing accounts\<close>

lemma map_of_filter_account:
  "map_of (filter (\<lambda>e. fst (fst e) \<notin> S) xs) (a, k) = (if a \<notin> S then map_of xs (a, k) else None)"
  by (induction xs) auto

lemma positions_loop_eq:
  "positions_loop c am =
     (if \<exists>e\<in>set am. fst (fst e) = cAccount c \<and> snd e \<noteq> 0 then Inl (NonzeroPosition c)
      else Inr (filter (\<lambda>e. fst (fst e) \<noteq> cAccount c) am))"
  by (induction c am rule: positions_loop.induct) auto

lemma closings_loop_Inr:
  "closings_loop oa am cs = Inr (oa', am') \<Longrightarrow>
     am' = filter (\<lambda>e. fst (fst e) \<notin> cAccount ` set cs) am \<and>
     oa' = oa - cAccount ` set cs \<and>
     distinct (map cAccount cs) \<and> cAccount ` set cs \<subseteq> oa \<and>
     (\<forall>c\<in>set cs. \<forall>e\<in>set am. fst (fst e) = cAccount c \<longrightarrow> snd e = 0)"
proof (induction cs arbitrary: oa am)
  case Nil
  then show ?case by simp
next
  case (Cons c cs)
  let ?am1 = "filter (\<lambda>e. fst (fst e) \<noteq> cAccount c) am"
  from Cons.prems have nz: "\<forall>e\<in>set am. fst (fst e) = cAccount c \<longrightarrow> snd e = 0"
    by (auto simp: positions_loop_eq split: if_splits)
  with Cons.prems have op: "cAccount c \<in> oa"
    and rest: "closings_loop (oa - {cAccount c}) ?am1 cs = Inr (oa', am')"
    by (auto simp: positions_loop_eq accounts_Close_def split: if_splits)
  from Cons.IH[OF rest] have
    a: "am' = filter (\<lambda>e. fst (fst e) \<notin> cAccount ` set cs) ?am1"
    and b: "oa' = oa - {cAccount c} - cAccount ` set cs"
    and c: "distinct (map cAccount cs)"
    and d: "cAccount ` set cs \<subseteq> oa - {cAccount c}"
    and e: "\<forall>c'\<in>set cs. \<forall>e\<in>set ?am1. fst (fst e) = cAccount c' \<longrightarrow> snd e = 0"
    by blast+
  from a have "am' = filter (\<lambda>e. fst (fst e) \<notin> cAccount ` set (c # cs)) am"
    by (auto intro: filter_cong)
  moreover from b have "oa' = oa - cAccount ` set (c # cs)" by auto
  moreover from c d have "distinct (map cAccount (c # cs))" by auto
  moreover from d op have "cAccount ` set (c # cs) \<subseteq> oa" by auto
  moreover have "\<forall>c'\<in>set (c # cs). \<forall>e\<in>set am. fst (fst e) = cAccount c' \<longrightarrow> snd e = 0"
    using nz e d by auto
  ultimately show ?case by blast
qed

lemma closings_loop_succeeds:
  "distinct (map cAccount cs) \<Longrightarrow> cAccount ` set cs \<subseteq> oa \<Longrightarrow>
   (\<forall>c\<in>set cs. \<forall>e\<in>set am. fst (fst e) = cAccount c \<longrightarrow> snd e = 0) \<Longrightarrow>
   \<exists>st. closings_loop oa am cs = Inr st"
proof (induction cs arbitrary: oa am)
  case Nil
  then show ?case by simp
next
  case (Cons c cs)
  let ?am1 = "filter (\<lambda>e. fst (fst e) \<noteq> cAccount c) am"
  from Cons.prems(1) have notin: "cAccount c \<notin> cAccount ` set cs" and dist: "distinct (map cAccount cs)"
    by simp_all
  have sub: "cAccount ` set cs \<subseteq> oa - {cAccount c}"
  proof
    fix x
    assume x: "x \<in> cAccount ` set cs"
    with notin have "x \<noteq> cAccount c" by metis
    moreover from x Cons.prems(2) have "x \<in> oa" by auto
    ultimately show "x \<in> oa - {cAccount c}" by simp
  qed
  from Cons.prems(3) have "\<forall>c'\<in>set cs. \<forall>e\<in>set ?am1. fst (fst e) = cAccount c' \<longrightarrow> snd e = 0"
    by simp
  with dist sub have "\<exists>st. closings_loop (oa - {cAccount c}) ?am1 cs = Inr st"
    by (rule Cons.IH)
  moreover from Cons.prems(3)
  have "positions_loop c am = Inr ?am1" by (simp add: positions_loop_eq)
  moreover from Cons.prems(2)
  have "accounts_Close oa (cAccount c) = Inr (oa - {cAccount c})" by (simp add: accounts_Close_def)
  ultimately show ?case by simp
qed

lemma closings_loop_Inl:
  "closings_loop oa am cs = Inl e \<Longrightarrow>
   \<exists>c\<in>set cs. (e = NonzeroPosition c \<and> (\<exists>x\<in>set am. fst (fst x) = cAccount c \<and> snd x \<noteq> 0))
       \<or> e = AlreadyClosed (cAccount c)"
proof (induction cs arbitrary: oa am)
  case Nil
  then show ?case by simp
next
  case (Cons c cs)
  show ?case
  proof (cases "\<exists>x\<in>set am. fst (fst x) = cAccount c \<and> snd x \<noteq> 0")
    case True
    then have "positions_loop c am = Inl (NonzeroPosition c)" by (simp add: positions_loop_eq)
    with Cons.prems have "e = NonzeroPosition c" by simp
    with True show ?thesis by simp
  next
    case nz: False
    then have pl: "positions_loop c am = Inr (filter (\<lambda>e. fst (fst e) \<noteq> cAccount c) am)"
      by (simp add: positions_loop_eq)
    show ?thesis
    proof (cases "cAccount c \<in> oa")
      case False
      with pl Cons.prems have "e = AlreadyClosed (cAccount c)"
        by (simp add: accounts_Close_def)
      then show ?thesis by simp
    next
      case True
      with pl Cons.prems have
        "closings_loop (oa - {cAccount c}) (filter (\<lambda>e. fst (fst e) \<noteq> cAccount c) am) cs = Inl e"
        by (simp add: accounts_Close_def)
      from Cons.IH[OF this] obtain c' where c': "c' \<in> set cs"
        and d: "(e = NonzeroPosition c' \<and>
                 (\<exists>x\<in>set (filter (\<lambda>e. fst (fst e) \<noteq> cAccount c) am).
                     fst (fst x) = cAccount c' \<and> snd x \<noteq> 0)) \<or>
                e = AlreadyClosed (cAccount c')"
        by blast
      have sub: "\<forall>x. x \<in> set (filter (\<lambda>e. fst (fst e) \<noteq> cAccount c) am) \<longrightarrow> x \<in> set am"
        by simp
      from d sub have "(e = NonzeroPosition c' \<and>
                 (\<exists>x\<in>set am. fst (fst x) = cAccount c' \<and> snd x \<noteq> 0)) \<or>
                e = AlreadyClosed (cAccount c')"
        by blast
      with c' have "\<exists>c'\<in>set cs. (e = NonzeroPosition c' \<and>
                 (\<exists>x\<in>set am. fst (fst x) = cAccount c' \<and> snd x \<noteq> 0)) \<or>
                e = AlreadyClosed (cAccount c')"
        by blast
      then show ?thesis by simp
    qed
  qed
qed

lemma entries_map_of:
  "distinct (map fst am) \<Longrightarrow> (\<exists>x\<in>set am. fst (fst x) = a \<and> snd x \<noteq> (0::rat)) \<longleftrightarrow>
     (\<exists>k x. map_of am (a, k) = Some x \<and> x \<noteq> 0)"
  by (force dest: map_of_SomeD simp: map_of_eq_Some_iff)

text \<open>
  C4. Let the running amounts hold each position once. When \<^verbatim>\<open>processClosings\<close>
  succeeds on a day, every account closed on that day was open, is no longer open, and
  has no entry left in the amounts, zero or nonzero; the positions of the other accounts
  are untouched. It succeeds exactly when the closed accounts are pairwise different,
  all open, and have no nonzero position. When it fails, the error is the nonzero
  position of a closed account or the close of an account that is not open.
\<close>

theorem C4_close:
  assumes "distinct (map fst am)"
  shows "(\<forall>oa' am'. processClosings oa am d = Inr (oa', am') \<longrightarrow>
            (\<forall>c\<in>set (Closings d).
               cAccount c \<in> oa \<and> cAccount c \<notin> oa' \<and> (\<forall>k. map_of am' (cAccount c, k) = None)) \<and>
            oa' = oa - cAccount ` set (Closings d) \<and>
            (\<forall>a k. a \<notin> cAccount ` set (Closings d) \<longrightarrow> map_of am' (a, k) = map_of am (a, k))) \<and>
         ((\<exists>st. processClosings oa am d = Inr st) \<longleftrightarrow>
            distinct (map cAccount (Closings d)) \<and>
            (\<forall>c\<in>set (Closings d).
               cAccount c \<in> oa \<and> (\<forall>k x. map_of am (cAccount c, k) = Some x \<longrightarrow> x = 0))) \<and>
         (\<forall>e. processClosings oa am d = Inl e \<longrightarrow>
            (\<exists>c\<in>set (Closings d).
               (e = NonzeroPosition c \<and> (\<exists>k x. map_of am (cAccount c, k) = Some x \<and> x \<noteq> 0)) \<or>
               e = AlreadyClosed (cAccount c)))"
proof (intro conjI allI impI)
  fix oa' am'
  assume r: "processClosings oa am d = Inr (oa', am')"
  note R = closings_loop_Inr[OF r[unfolded processClosings_def]]
  from R show "oa' = oa - cAccount ` set (Closings d)" by blast
  from R show "\<forall>c\<in>set (Closings d).
       cAccount c \<in> oa \<and> cAccount c \<notin> oa' \<and> (\<forall>k. map_of am' (cAccount c, k) = None)"
    by (auto simp: map_of_filter_account)
  fix a k
  assume "a \<notin> cAccount ` set (Closings d)"
  with R show "map_of am' (a, k) = map_of am (a, k)"
    by (simp add: map_of_filter_account)
next
  show "(\<exists>st. processClosings oa am d = Inr st) \<longleftrightarrow>
            distinct (map cAccount (Closings d)) \<and>
            (\<forall>c\<in>set (Closings d).
               cAccount c \<in> oa \<and> (\<forall>k x. map_of am (cAccount c, k) = Some x \<longrightarrow> x = 0))"
  proof
    assume "\<exists>st. processClosings oa am d = Inr st"
    then obtain oa' am' where "closings_loop oa am (Closings d) = Inr (oa', am')"
      unfolding processClosings_def by auto
    from closings_loop_Inr[OF this] show "distinct (map cAccount (Closings d)) \<and>
            (\<forall>c\<in>set (Closings d).
               cAccount c \<in> oa \<and> (\<forall>k x. map_of am (cAccount c, k) = Some x \<longrightarrow> x = 0))"
      by (fastforce dest!: map_of_SomeD)
  next
    assume h: "distinct (map cAccount (Closings d)) \<and>
            (\<forall>c\<in>set (Closings d).
               cAccount c \<in> oa \<and> (\<forall>k x. map_of am (cAccount c, k) = Some x \<longrightarrow> x = 0))"
    have "\<forall>c\<in>set (Closings d). \<forall>e\<in>set am. fst (fst e) = cAccount c \<longrightarrow> snd e = 0"
    proof (intro ballI impI)
      fix c e assume c: "c \<in> set (Closings d)" and e: "e \<in> set am" and "fst (fst e) = cAccount c"
      then have "e = ((cAccount c, snd (fst e)), snd e)" by (metis prod.collapse)
      with e assms have "map_of am (cAccount c, snd (fst e)) = Some (snd e)"
        by (metis map_of_eq_Some_iff)
      with h c show "snd e = 0" by blast
    qed
    with h show "\<exists>st. processClosings oa am d = Inr st"
      unfolding processClosings_def by (intro closings_loop_succeeds) auto
  qed
next
  fix e
  assume "processClosings oa am d = Inl e"
  from closings_loop_Inl[OF this[unfolded processClosings_def]]
  show "\<exists>c\<in>set (Closings d).
               (e = NonzeroPosition c \<and> (\<exists>k x. map_of am (cAccount c, k) = Some x \<and> x \<noteq> 0)) \<or>
               e = AlreadyClosed (cAccount c)"
    using entries_map_of[OF assms] by blast
qed

text \<open>
  At a concrete day: \<^verbatim>\<open>Assets:Cash\<close> is open with a zero USD position and is closed;
  the position is deleted and the account leaves the open set.
\<close>

theorem C4_close_witness:
  "distinct (map fst [((MkAccount ASSETS ''Assets:Cash'', MkCommodity ''USD''), 0 :: Decimal),
                      ((MkAccount INCOME ''Income:Salary'', MkCommodity ''USD''), 0)]) \<and>
   processClosings {MkAccount ASSETS ''Assets:Cash'', MkAccount INCOME ''Income:Salary''}
     [((MkAccount ASSETS ''Assets:Cash'', MkCommodity ''USD''), 0),
      ((MkAccount INCOME ''Income:Salary'', MkCommodity ''USD''), 0)]
     \<lparr>dDate = 3, Prices = [], Assertions = [], Values = [], Openings = [], Transactions = [],
      Closings = [\<lparr>cRange = ([], 0, 0), cDate = 3, cAccount = MkAccount ASSETS ''Assets:Cash''\<rparr>],
      Amounts = []\<rparr>
   = Inr ({MkAccount INCOME ''Income:Salary''},
          [((MkAccount INCOME ''Income:Salary'', MkCommodity ''USD''), 0)])"
  using C4_close[of "[((MkAccount ASSETS ''Assets:Cash'', MkCommodity ''USD''), 0),
                      ((MkAccount INCOME ''Income:Salary'', MkCommodity ''USD''), 0)]"
      "{MkAccount ASSETS ''Assets:Cash'', MkAccount INCOME ''Income:Salary''}"
      "\<lparr>dDate = 3, Prices = [], Assertions = [], Values = [], Openings = [], Transactions = [],
        Closings = [\<lparr>cRange = ([], 0, 0), cDate = 3, cAccount = MkAccount ASSETS ''Assets:Cash''\<rparr>],
        Amounts = []\<rparr>"]
  by (simp add: processClosings_def accounts_Close_def insert_Diff_if)


section \<open>Double-entry conservation\<close>

lemma Amounts_Amount_Cons:
  "Amounts_Amount ((p, v) # am) a c = (if p = (a, c) then v else Amounts_Amount am a c)"
  by (simp add: Amounts_Amount_def)

lemma commodity_sum_Cons:
  assumes "p \<notin> fst ` set am"
  shows "commodity_sum ((p, v) # am) k = (if snd p = k then v else 0) + commodity_sum am k"
proof -
  let ?K = "{pos \<in> fst ` set am. snd pos = k}"
  have fin: "finite ?K" by simp
  have notin: "p \<notin> ?K" using assms by simp
  have same: "(\<Sum>pos\<in>?K. Amounts_Amount ((p, v) # am) (fst pos) (snd pos)) =
              (\<Sum>pos\<in>?K. Amounts_Amount am (fst pos) (snd pos))"
  proof (rule sum.cong)
    fix pos
    assume "pos \<in> ?K"
    with assms have "p \<noteq> pos" by auto
    then have "p \<noteq> (fst pos, snd pos)" by simp
    then show "Amounts_Amount ((p, v) # am) (fst pos) (snd pos) =
               Amounts_Amount am (fst pos) (snd pos)"
      by (simp only: Amounts_Amount_Cons if_False)
  qed simp
  show ?thesis
  proof (cases "snd p = k")
    case True
    then have "{pos \<in> fst ` set ((p, v) # am). snd pos = k} = insert p ?K" by auto
    then have "commodity_sum ((p, v) # am) k =
                 (\<Sum>pos\<in>insert p ?K. Amounts_Amount ((p, v) # am) (fst pos) (snd pos))"
      by (simp add: commodity_sum_def)
    also have "\<dots> = Amounts_Amount ((p, v) # am) (fst p) (snd p) +
                 (\<Sum>pos\<in>?K. Amounts_Amount ((p, v) # am) (fst pos) (snd pos))"
      using fin notin by (rule sum.insert)
    also have "\<dots> = v + (\<Sum>pos\<in>?K. Amounts_Amount am (fst pos) (snd pos))"
      unfolding same by (simp add: Amounts_Amount_def)
    finally show ?thesis using True by (simp add: commodity_sum_def)
  next
    case False
    then have "{pos \<in> fst ` set ((p, v) # am). snd pos = k} = ?K" by auto
    then show ?thesis using False same by (simp add: commodity_sum_def)
  qed
qed

lemma commodity_sum_entries:
  "distinct (map fst am) \<Longrightarrow> commodity_sum am k = entries_sum am k"
proof (induction am)
  case Nil
  then show ?case by (simp add: commodity_sum_def entries_sum_def)
next
  case (Cons e am)
  obtain p v where e: "e = (p, v)" by (cases e)
  with Cons.prems have "p \<notin> fst ` set am" and "distinct (map fst am)" by auto
  with Cons.IH e show ?case
    by (simp add: commodity_sum_Cons) (simp add: entries_sum_def)
qed

lemma entries_sum_update:
  "distinct (map fst am) \<Longrightarrow>
   entries_sum (AList.update (a, c) v am) k =
     entries_sum am k + (if c = k then v - Amounts_Amount am a c else 0)"
proof (induction am)
  case Nil
  then show ?case by (simp add: entries_sum_def Amounts_Amount_def)
next
  case (Cons e am)
  obtain a' c' w where e: "e = ((a', c'), w)" by (cases e) auto
  show ?case
  proof (cases "(a', c') = (a, c)")
    case True
    with e show ?thesis by (simp add: entries_sum_def Amounts_Amount_def)
  next
    case False
    from Cons.prems have "distinct (map fst am)" by simp
    then have IH: "entries_sum (AList.update (a, c) v am) k =
        entries_sum am k + (if c = k then v - Amounts_Amount am a c else 0)"
      by (rule Cons.IH)
    from False have upd: "AList.update (a, c) v (((a', c'), w) # am) =
        ((a', c'), w) # AList.update (a, c) v am" by auto
    from False have amt: "Amounts_Amount (((a', c'), w) # am) a c = Amounts_Amount am a c"
      by (auto simp: Amounts_Amount_def)
    have cons: "\<And>xs. entries_sum (((a', c'), w) # xs) k = (if c' = k then w else 0) + entries_sum xs k"
      by (simp add: entries_sum_def)
    show ?thesis unfolding e upd amt cons IH by simp
  qed
qed

lemma distinct_Book: "distinct (map fst am) \<Longrightarrow> distinct (map fst (Amounts_Book am cr dr x c))"
  by (simp add: Amounts_Book_def Amounts_Add_def Let_def distinct_update)

lemma entries_sum_Book:
  "distinct (map fst am) \<Longrightarrow> entries_sum (Amounts_Book am cr dr x c) k = entries_sum am k"
  by (simp add: Amounts_Book_def Amounts_Add_def Let_def entries_sum_update distinct_update)

lemma commodity_sum_Book:
  "distinct (map fst am) \<Longrightarrow> commodity_sum (Amounts_Book am cr dr x c) k = commodity_sum am k"
  by (simp add: commodity_sum_entries distinct_Book entries_sum_Book)

lemma map_of_Book:
  "map_of (Amounts_Book am cr dr x c) =
     (let m1 = (map_of am)((cr, c) \<mapsto> Amounts_Amount am cr c - x)
      in m1((dr, c) \<mapsto> (case m1 (dr, c) of None \<Rightarrow> 0 | Some y \<Rightarrow> y) + x))"
  by (simp add: Amounts_Book_def Amounts_Add_def Let_def update_conv' Amounts_Amount_def)

lemma Amounts_Amount_Book:
  "Amounts_Amount (Amounts_Book am cr dr x c) a k =
     Amounts_Amount am a k - (if (cr, c) = (a, k) then x else 0) + (if (dr, c) = (a, k) then x else 0)"
  by (auto simp: Amounts_Book_def Amounts_Add_def Let_def update_conv' Amounts_Amount_def)

lemma map_of_Book_debit:
  "map_of (Amounts_Book am cr dr x c) (dr, c) = Some (Amounts_Amount (Amounts_Book am cr dr x c) dr c)"
  by (simp add: Amounts_Book_def Amounts_Add_def Let_def update_conv' Amounts_Amount_def)

lemma map_of_Book_credit:
  "map_of (Amounts_Book am cr dr x c) (cr, c) = Some (Amounts_Amount (Amounts_Book am cr dr x c) cr c)"
  by (simp add: Amounts_Book_def Amounts_Add_def Let_def update_conv' Amounts_Amount_def)

lemma postings_loop_inv:
  "postings_loop oa am t ps = Inr am' \<Longrightarrow> distinct (map fst am) \<Longrightarrow>
   distinct (map fst am') \<and> (\<forall>k. entries_sum am' k = entries_sum am k)"
proof (induction ps arbitrary: am)
  case Nil
  then show ?case by simp
next
  case (Cons p ps)
  let ?am1 = "Amounts_Book am (Credit p) (Debit p) (Amount p) (Commodity p)"
  from Cons.prems have "postings_loop oa ?am1 t ps = Inr am'" by (simp split: if_splits)
  moreover from Cons.prems have "distinct (map fst ?am1)" by (simp add: distinct_Book)
  ultimately have "distinct (map fst am') \<and> (\<forall>k. entries_sum am' k = entries_sum ?am1 k)"
    by (rule Cons.IH)
  with Cons.prems show ?case by (simp add: entries_sum_Book)
qed

lemma transactions_loop_inv:
  "transactions_loop oa am ts = Inr am' \<Longrightarrow> distinct (map fst am) \<Longrightarrow>
   distinct (map fst am') \<and> (\<forall>k. entries_sum am' k = entries_sum am k)"
proof (induction ts arbitrary: am)
  case Nil
  then show ?case by simp
next
  case (Cons t ts)
  from Cons.prems obtain am1 where 1: "postings_loop oa am t (Postings t) = Inr am1"
    and 2: "transactions_loop oa am1 ts = Inr am'"
    by (auto split: sum.splits)
  from postings_loop_inv[OF 1 Cons.prems(2)] Cons.IH[OF 2] show ?case by simp
qed

lemma values_loop_inv:
  "values_loop ctx oa am txs vs = Inr (txs', am') \<Longrightarrow> distinct (map fst am) \<Longrightarrow>
   distinct (map fst am') \<and> (\<forall>k. entries_sum am' k = entries_sum am k)"
proof (induction vs arbitrary: am txs)
  case Nil
  then show ?case by simp
next
  case (Cons v vs)
  let ?p = "value_posting ctx am v"
  let ?am1 = "Amounts_Book am (Credit ?p) (Debit ?p) (Amount ?p) (Commodity ?p)"
  from Cons.prems have "values_loop ctx oa ?am1 (txs @ [value_transaction v ?p]) vs = Inr (txs', am')"
    by (simp add: Let_def split: if_splits)
  moreover from Cons.prems have "distinct (map fst ?am1)" by (simp add: distinct_Book)
  ultimately have "distinct (map fst am') \<and> (\<forall>k. entries_sum am' k = entries_sum ?am1 k)"
    by (rule Cons.IH)
  with Cons.prems show ?case by (simp add: entries_sum_Book)
qed

lemma entries_sum_filter_zero:
  "(\<forall>e\<in>set am. \<not> P e \<longrightarrow> snd e = 0) \<Longrightarrow> entries_sum (filter P am) k = entries_sum am k"
  by (induction am) (auto simp: entries_sum_def)

lemma closings_loop_inv:
  assumes "closings_loop oa am cs = Inr (oa', am')" and "distinct (map fst am)"
  shows "distinct (map fst am') \<and> (\<forall>k. entries_sum am' k = entries_sum am k)"
proof -
  note R = closings_loop_Inr[OF assms(1)]
  from R have am': "am' = filter (\<lambda>e. fst (fst e) \<notin> cAccount ` set cs) am" by blast
  from R have "\<forall>e\<in>set am. \<not> fst (fst e) \<notin> cAccount ` set cs \<longrightarrow> snd e = 0" by auto
  then have "\<forall>k. entries_sum am' k = entries_sum am k"
    unfolding am' by (simp add: entries_sum_filter_zero)
  moreover from assms(2) have "distinct (map fst am')"
    unfolding am' by (rule distinct_map_filter)
  ultimately show ?thesis by simp
qed

lemma Process2_day_inv:
  assumes "Process2_day ctx (oa, am) d = Inr ((oa', am'), d')" and "distinct (map fst am)"
  shows "distinct (map fst am') \<and> (\<forall>k. entries_sum am' k = entries_sum am k) \<and> Amounts d' = am'"
proof -
  from assms(1) obtain oa1 am1 txs am2 where
      1: "processTransactions oa1 am d = Inr am1"
    and 2: "processValues ctx oa1 am1 d = Inr (txs, am2)"
    and 3: "processClosings oa1 am2 d = Inr (oa', am')"
    and 4: "d' = d\<lparr>Transactions := Transactions d @ txs, Amounts := am'\<rparr>"
    by (auto simp: Process2_day_def split: sum.splits prod.splits)
  from transactions_loop_inv[OF 1[unfolded processTransactions_def] assms(2)]
  have a: "distinct (map fst am1)" "\<forall>k. entries_sum am1 k = entries_sum am k" by simp_all
  from values_loop_inv[OF 2[unfolded processValues_def] a(1)]
  have b: "distinct (map fst am2)" "\<forall>k. entries_sum am2 k = entries_sum am1 k" by simp_all
  from closings_loop_inv[OF 3[unfolded processClosings_def] b(1)]
  have c: "distinct (map fst am')" "\<forall>k. entries_sum am' k = entries_sum am2 k" by simp_all
  from a b c 4 show ?thesis by simp
qed

lemma Process2_loop_inv:
  "Process2_loop ctx (oa, am) ds = Inr ((oa', am'), out) \<Longrightarrow> distinct (map fst am) \<Longrightarrow>
   (\<forall>k. entries_sum am k = 0) \<Longrightarrow>
   distinct (map fst am') \<and> (\<forall>k. entries_sum am' k = 0) \<and>
   (\<forall>d\<in>set out. distinct (map fst (Amounts d)) \<and> (\<forall>k. entries_sum (Amounts d) k = 0))"
proof (induction ds arbitrary: oa am out)
  case Nil
  then show ?case by simp
next
  case (Cons d ds)
  from Cons.prems(1) obtain oa1 am1 d' out' where
      1: "Process2_day ctx (oa, am) d = Inr ((oa1, am1), d')"
    and 2: "Process2_loop ctx (oa1, am1) ds = Inr ((oa', am'), out')"
    and 3: "out = d' # out'"
    by (auto split: sum.splits prod.splits)
  from Process2_day_inv[OF 1 Cons.prems(2)] Cons.prems(3)
  have a: "distinct (map fst am1)" "\<forall>k. entries_sum am1 k = 0" "Amounts d' = am1" by simp_all
  from Cons.IH[OF 2 a(1) a(2)] a 3 show ?case by simp
qed

text \<open>
  C1. The balancer knows no valuation commodity. When \<^verbatim>\<open>Process2\<close> has processed all
  days, the running amounts hold each position once and, for every commodity, the sum of
  the amounts over all positions of that commodity (accounts of every type together) is
  0; the same holds of the amounts attached to every day it has emitted. The booking of
  the postings of a day (\<^verbatim>\<open>processTransactions\<close>) and the booking of the synthesised
  value adjustments (\<^verbatim>\<open>processValues\<close>) each leave the sum of every commodity
  unchanged.
\<close>

theorem C1_conservation:
  "(Process2 ctx ds = Inr ((oa, am), out) \<longrightarrow>
      distinct (map fst am) \<and> (\<forall>k. commodity_sum am k = 0) \<and>
      (\<forall>d\<in>set out. distinct (map fst (Amounts d)) \<and> (\<forall>k. commodity_sum (Amounts d) k = 0))) \<and>
   (distinct (map fst am0) \<and> processTransactions oa0 am0 d0 = Inr am1 \<longrightarrow>
      distinct (map fst am1) \<and> (\<forall>k. commodity_sum am1 k = commodity_sum am0 k)) \<and>
   (distinct (map fst am0) \<and> processValues ctx oa0 am0 d0 = Inr (txs, am2) \<longrightarrow>
      distinct (map fst am2) \<and> (\<forall>k. commodity_sum am2 k = commodity_sum am0 k))"
proof (intro conjI impI)
  assume "Process2 ctx ds = Inr ((oa, am), out)"
  then have "Process2_loop ctx ({}, []) ds = Inr ((oa, am), out)" by (simp add: Process2_def)
  from Process2_loop_inv[OF this]
  have r: "distinct (map fst am) \<and> (\<forall>k. entries_sum am k = 0) \<and>
      (\<forall>d\<in>set out. distinct (map fst (Amounts d)) \<and> (\<forall>k. entries_sum (Amounts d) k = 0))"
    by (simp add: entries_sum_def)
  then show "distinct (map fst am)" by simp
  from r show "\<forall>k. commodity_sum am k = 0" by (simp add: commodity_sum_entries)
  from r show "\<forall>d\<in>set out. distinct (map fst (Amounts d)) \<and> (\<forall>k. commodity_sum (Amounts d) k = 0)"
    by (simp add: commodity_sum_entries)
next
  assume h: "distinct (map fst am0) \<and> processTransactions oa0 am0 d0 = Inr am1"
  from transactions_loop_inv[of oa0 am0 "Transactions d0" am1] h
  have r: "distinct (map fst am1) \<and> (\<forall>k. entries_sum am1 k = entries_sum am0 k)"
    by (simp add: processTransactions_def)
  then show "distinct (map fst am1)" by simp
  from r h show "\<forall>k. commodity_sum am1 k = commodity_sum am0 k" by (simp add: commodity_sum_entries)
next
  assume h: "distinct (map fst am0) \<and> processValues ctx oa0 am0 d0 = Inr (txs, am2)"
  from values_loop_inv[of ctx oa0 am0 "[]" "Values d0" txs am2] h
  have r: "distinct (map fst am2) \<and> (\<forall>k. entries_sum am2 k = entries_sum am0 k)"
    by (simp add: processValues_def)
  then show "distinct (map fst am2)" by simp
  from r h show "\<forall>k. commodity_sum am2 k = commodity_sum am0 k" by (simp add: commodity_sum_entries)
qed

text \<open>The definitions that evaluate the balancer at a concrete journal.\<close>

lemmas balancer_eval = Process2_def Process2_day_def processOpenings_def processTransactions_def
  processValues_def processAssertions_def processClosings_def accounts_Open_def accounts_Close_def
  IsOpen_def Amounts_Book_def Amounts_Add_def Amounts_Amount_def NewPosting_def NewPostingWithTargets_def
  value_posting_def value_transaction_def Let_def

text \<open>
  At the journal of scenario S1 (two accounts opened on day 1, a salary of 100 USD on
  day 2), and at a day with a salary and a value directive.
\<close>

theorem C1_conservation_witness:
  "Process2 ex_ctx
     [(ex_day 1)\<lparr>Openings := [ex_open 1 ex_cash, ex_open 1 ex_salary]\<rparr>,
      (ex_day 2)\<lparr>Transactions :=
         [ex_transaction 2 ''Pay'' [NewPosting ex_salary ex_cash ex_usd 100]]\<rparr>]
   = Inr (({ex_salary, ex_cash}, [((ex_salary, ex_usd), - 100), ((ex_cash, ex_usd), 100)]),
          [(ex_day 1)\<lparr>Openings := [ex_open 1 ex_cash, ex_open 1 ex_salary]\<rparr>,
           (ex_day 2)\<lparr>Transactions :=
              [ex_transaction 2 ''Pay'' [NewPosting ex_salary ex_cash ex_usd 100]],
              Amounts := [((ex_salary, ex_usd), - 100), ((ex_cash, ex_usd), 100)]\<rparr>]) \<and>
   commodity_sum [((ex_salary, ex_usd), - 100), ((ex_cash, ex_usd), 100)] ex_usd = 0 \<and>
   processTransactions {ex_salary, ex_cash} []
     ((ex_day 2)\<lparr>Transactions :=
         [ex_transaction 2 ''Pay'' [NewPosting ex_salary ex_cash ex_usd 100]],
        Values := [ex_value 2 ex_cash 120 ex_usd]\<rparr>)
   = Inr [((ex_salary, ex_usd), - 100), ((ex_cash, ex_usd), 100)] \<and>
   commodity_sum [((ex_salary, ex_usd), - 100), ((ex_cash, ex_usd), 100)] ex_usd =
     commodity_sum [] ex_usd \<and>
   processValues ex_ctx {ex_salary, ex_cash} []
     ((ex_day 2)\<lparr>Transactions :=
         [ex_transaction 2 ''Pay'' [NewPosting ex_salary ex_cash ex_usd 100]],
        Values := [ex_value 2 ex_cash 120 ex_usd]\<rparr>)
   = Inr ([ex_transaction 2 ''Valuation adjustment for USD in Assets:Cash''
             [\<lparr>Amount = 120, Credit = MkAccount EQUITY ''Equity:Valuation:Assets:Cash'',
               Debit = ex_cash, Commodity = ex_usd, Targets = [ex_usd], Lot = None\<rparr>]],
          [((MkAccount EQUITY ''Equity:Valuation:Assets:Cash'', ex_usd), - 120),
           ((ex_cash, ex_usd), 120)]) \<and>
   commodity_sum [((MkAccount EQUITY ''Equity:Valuation:Assets:Cash'', ex_usd), - 120),
                  ((ex_cash, ex_usd), 120)] ex_usd = commodity_sum [] ex_usd"
proof -
  let ?ds = "[(ex_day 1)\<lparr>Openings := [ex_open 1 ex_cash, ex_open 1 ex_salary]\<rparr>,
      (ex_day 2)\<lparr>Transactions :=
         [ex_transaction 2 ''Pay'' [NewPosting ex_salary ex_cash ex_usd 100]]\<rparr>]"
  let ?am = "[((ex_salary, ex_usd), - 100 :: Decimal), ((ex_cash, ex_usd), 100)]"
  let ?out = "[(ex_day 1)\<lparr>Openings := [ex_open 1 ex_cash, ex_open 1 ex_salary]\<rparr>,
           (ex_day 2)\<lparr>Transactions :=
              [ex_transaction 2 ''Pay'' [NewPosting ex_salary ex_cash ex_usd 100]],
              Amounts := ?am\<rparr>]"
  let ?d0 = "(ex_day 2)\<lparr>Transactions :=
         [ex_transaction 2 ''Pay'' [NewPosting ex_salary ex_cash ex_usd 100]],
        Values := [ex_value 2 ex_cash 120 ex_usd]\<rparr>"
  let ?txs = "[ex_transaction 2 ''Valuation adjustment for USD in Assets:Cash''
             [\<lparr>Amount = 120, Credit = MkAccount EQUITY ''Equity:Valuation:Assets:Cash'',
               Debit = ex_cash, Commodity = ex_usd, Targets = [ex_usd], Lot = None\<rparr>]]"
  let ?am2 = "[((MkAccount EQUITY ''Equity:Valuation:Assets:Cash'', ex_usd), - 120 :: Decimal),
           ((ex_cash, ex_usd), 120)]"
  have run: "Process2 ex_ctx ?ds = Inr (({ex_salary, ex_cash}, ?am), ?out)"
    by (simp add: balancer_eval)
  have tr: "processTransactions {ex_salary, ex_cash} [] ?d0 = Inr ?am"
    by (simp add: balancer_eval)
  have va: "processValues ex_ctx {ex_salary, ex_cash} [] ?d0 = Inr (?txs, ?am2)"
    by (simp add: balancer_eval)
  have di: "distinct (map fst ([] :: Amounts))" by simp
  from C1_conservation[of ex_ctx ?ds "{ex_salary, ex_cash}" ?am ?out "[]" "{ex_salary, ex_cash}"
      ?d0 ?am ?txs ?am2] run tr va di
  show ?thesis by simp
qed

section \<open>Value directives\<close>

text \<open>
  C2. For a value directive \<open>v\<close> on an open account \<open>a\<close> with commodity \<open>k\<close>, the loop
  of \<^verbatim>\<open>processValues\<close> builds the posting
  \<^verbatim>\<open>NewPostingWithTargets(ValuationAccountFor(a), a, k, v.Amount - amounts[(a,k)], [k])\<close>
  (the constructor swaps the accounts and negates the amount when the difference is
  negative), books it, appends the one-posting transaction described
  \<^verbatim>\<open>Valuation adjustment for <k> in <a>\<close> and goes on with the rest of the values;
  in the amounts it goes on with, the position \<open>(a, k)\<close> is exactly the amount of the
  directive. The valuation account of \<open>a\<close> is an account of its own, different from
  \<open>a\<close>.
\<close>

theorem C2_value:
  assumes "IsOpen oa (vAccount v)"
    and "ValuationAccountFor ctx (vAccount v) \<noteq> vAccount v"
  shows "values_loop ctx oa am txs (v # vs) =
           values_loop ctx oa
             (Amounts_Book am (Credit (value_posting ctx am v)) (Debit (value_posting ctx am v))
                (Amount (value_posting ctx am v)) (Commodity (value_posting ctx am v)))
             (txs @ [\<lparr>tRange = ([], 0, 0), Date = vDate v,
                      Description = ''Valuation adjustment for '' @ Commodity_String (vCommodity v) @
                                    '' in '' @ Account_Name (vAccount v),
                      Tags = [], Postings = [value_posting ctx am v], AddOns = []\<rparr>]) vs \<and>
         value_posting ctx am v =
           NewPostingWithTargets (ValuationAccountFor ctx (vAccount v)) (vAccount v) (vCommodity v)
             (vAmount v - Amounts_Amount am (vAccount v) (vCommodity v)) [vCommodity v] \<and>
         map_of (Amounts_Book am (Credit (value_posting ctx am v)) (Debit (value_posting ctx am v))
                  (Amount (value_posting ctx am v)) (Commodity (value_posting ctx am v)))
           (vAccount v, vCommodity v) = Some (vAmount v)"
proof (intro conjI)
  let ?p = "value_posting ctx am v"
  let ?am' = "Amounts_Book am (Credit ?p) (Debit ?p) (Amount ?p) (Commodity ?p)"
  show "values_loop ctx oa am txs (v # vs) = values_loop ctx oa ?am'
             (txs @ [\<lparr>tRange = ([], 0, 0), Date = vDate v,
                      Description = ''Valuation adjustment for '' @ Commodity_String (vCommodity v) @
                                    '' in '' @ Account_Name (vAccount v),
                      Tags = [], Postings = [?p], AddOns = []\<rparr>]) vs"
    using assms(1) by (simp add: Let_def value_transaction_def)
  show "?p = NewPostingWithTargets (ValuationAccountFor ctx (vAccount v)) (vAccount v) (vCommodity v)
             (vAmount v - Amounts_Amount am (vAccount v) (vCommodity v)) [vCommodity v]"
    by (simp add: value_posting_def)
  have amt: "Amounts_Amount ?am' (vAccount v) (vCommodity v) = vAmount v"
    using assms(2)
    by (simp add: Amounts_Amount_Book value_posting_def NewPostingWithTargets_def NewPosting_def)
  have "Commodity ?p = vCommodity v"
    by (simp add: value_posting_def NewPostingWithTargets_def NewPosting_def)
  moreover have "Credit ?p = vAccount v \<or> Debit ?p = vAccount v"
    by (simp add: value_posting_def NewPostingWithTargets_def NewPosting_def)
  ultimately have "map_of ?am' (vAccount v, vCommodity v) =
        Some (Amounts_Amount ?am' (vAccount v) (vCommodity v))"
    using map_of_Book_debit[of am "Credit ?p" "Debit ?p" "Amount ?p" "Commodity ?p"]
      map_of_Book_credit[of am "Credit ?p" "Debit ?p" "Amount ?p" "Commodity ?p"]
    by auto
  with amt show "map_of ?am' (vAccount v, vCommodity v) = Some (vAmount v)" by simp
qed

text \<open>
  At a concrete day: \<^verbatim>\<open>Assets:Cash\<close> holds 100 USD and is valued at 80 USD. The
  difference is negative, so the posting goes from the account to its valuation account.
\<close>

theorem C2_value_witness:
  "IsOpen {ex_cash} ex_cash \<and> ValuationAccountFor ex_ctx ex_cash \<noteq> ex_cash \<and>
   processValues ex_ctx {ex_cash} [((ex_cash, ex_usd), 100)]
     ((ex_day 3)\<lparr>Values := [ex_value 3 ex_cash 80 ex_usd]\<rparr>) =
   Inr ([ex_transaction 3 ''Valuation adjustment for USD in Assets:Cash''
           [\<lparr>Amount = 20, Credit = ex_cash, Debit = MkAccount EQUITY ''Equity:Valuation:Assets:Cash'',
             Commodity = ex_usd, Targets = [ex_usd], Lot = None\<rparr>]],
        [((ex_cash, ex_usd), 80), ((MkAccount EQUITY ''Equity:Valuation:Assets:Cash'', ex_usd), 20)])"
  using C2_value[of "{ex_cash}" "ex_value 3 ex_cash 80 ex_usd" ex_ctx "[((ex_cash, ex_usd), 100)]" "[]" "[]"]
  by (simp add: balancer_eval)



section \<open>Open accounts and EQUITY\<close>

lemma postings_loop_error:
  "postings_loop oa am t ps = Inl e \<Longrightarrow>
   \<exists>p\<in>set ps. (e = CreditNotOpen t (Credit p) \<and> \<not> IsOpen oa (Credit p)) \<or>
               (e = DebitNotOpen t (Debit p) \<and> \<not> IsOpen oa (Debit p))"
proof (induction ps arbitrary: am)
  case Nil
  then show ?case by simp
next
  case (Cons p ps)
  show ?case
  proof (cases "IsOpen oa (Credit p) \<and> IsOpen oa (Debit p)")
    case True
    with Cons.prems have
      "postings_loop oa (Amounts_Book am (Credit p) (Debit p) (Amount p) (Commodity p)) t ps = Inl e"
      by simp
    from Cons.IH[OF this] show ?thesis by auto
  next
    case False
    with Cons.prems show ?thesis by (auto split: if_splits)
  qed
qed

lemma transactions_loop_error:
  "transactions_loop oa am ts = Inl e \<Longrightarrow>
   \<exists>t\<in>set ts. \<exists>p\<in>set (Postings t).
      (e = CreditNotOpen t (Credit p) \<and> \<not> IsOpen oa (Credit p)) \<or>
      (e = DebitNotOpen t (Debit p) \<and> \<not> IsOpen oa (Debit p))"
proof (induction ts arbitrary: am)
  case Nil
  then show ?case by simp
next
  case (Cons t ts)
  show ?case
  proof (cases "postings_loop oa am t (Postings t)")
    case (Inl e')
    with Cons.prems have "e' = e" by simp
    with Inl postings_loop_error[of oa am t "Postings t" e] show ?thesis by auto
  next
    case (Inr am')
    with Cons.prems have "transactions_loop oa am' ts = Inl e" by simp
    from Cons.IH[OF this] show ?thesis by auto
  qed
qed

lemma values_loop_error:
  "values_loop ctx oa am txs vs = Inl e \<Longrightarrow>
   \<exists>v\<in>set vs. e = ValueNotOpen v \<and> \<not> IsOpen oa (vAccount v)"
proof (induction vs arbitrary: am txs)
  case Nil
  then show ?case by simp
next
  case (Cons v vs)
  show ?case
  proof (cases "IsOpen oa (vAccount v)")
    case True
    with Cons.prems obtain am' txs' where "values_loop ctx oa am' txs' vs = Inl e"
      by (auto simp: Let_def)
    from Cons.IH[OF this] show ?thesis by auto
  next
    case False
    with Cons.prems show ?thesis by simp
  qed
qed

text \<open>
  C5, as the code has it. \<^verbatim>\<open>IsOpen\<close> holds of every EQUITY account, whatever the set
  of open accounts. The checks made with it never reject an EQUITY account: when
  \<^verbatim>\<open>processTransactions\<close> fails on a credit or debit account that is not open, when
  \<^verbatim>\<open>processValues\<close> or \<^verbatim>\<open>processAssertions\<close> fails on an account that is not open,
  that account is not in the open set and is not of type EQUITY. The close of an account
  is not such a check: \<^verbatim>\<open>processClosings\<close> fails when a closed account is not in the
  open set, whatever its type.
\<close>

theorem C5_equity_open:
  "(Account_Type a = EQUITY \<longrightarrow> IsOpen oa a) \<and>
   (processTransactions oa am d = Inl (CreditNotOpen t x) \<or>
    processTransactions oa am d = Inl (DebitNotOpen t x) \<longrightarrow>
      x \<notin> oa \<and> Account_Type x \<noteq> EQUITY) \<and>
   (processValues ctx oa am d = Inl (ValueNotOpen v) \<longrightarrow>
      vAccount v \<notin> oa \<and> Account_Type (vAccount v) \<noteq> EQUITY) \<and>
   (processAssertions oa am d = Inl (AssertionNotOpen b) \<longrightarrow>
      aAccount b \<notin> oa \<and> Account_Type (aAccount b) \<noteq> EQUITY) \<and>
   (c \<in> set (Closings d) \<and> cAccount c \<notin> oa \<longrightarrow> (\<exists>e. processClosings oa am d = Inl e))"
proof (intro conjI impI)
  assume "Account_Type a = EQUITY"
  then show "IsOpen oa a" by (simp add: IsOpen_def)
next
  assume "processTransactions oa am d = Inl (CreditNotOpen t x) \<or>
    processTransactions oa am d = Inl (DebitNotOpen t x)"
  then have "\<not> IsOpen oa x"
    using transactions_loop_error[of oa am "Transactions d" "CreditNotOpen t x"]
      transactions_loop_error[of oa am "Transactions d" "DebitNotOpen t x"]
    unfolding processTransactions_def by auto
  then show "x \<notin> oa" and "Account_Type x \<noteq> EQUITY" by (simp_all add: IsOpen_def)
next
  assume "processValues ctx oa am d = Inl (ValueNotOpen v)"
  then have "\<not> IsOpen oa (vAccount v)"
    using values_loop_error[of ctx oa am "[]" "Values d" "ValueNotOpen v"]
    unfolding processValues_def by auto
  then show "vAccount v \<notin> oa" and "Account_Type (vAccount v) \<noteq> EQUITY"
    by (simp_all add: IsOpen_def)
next
  assume "processAssertions oa am d = Inl (AssertionNotOpen b)"
  then have "\<not> IsOpen oa (aAccount b)"
    using assertions_loop_error[of oa am "Assertions d" "AssertionNotOpen b"]
    unfolding processAssertions_def by auto
  then show "aAccount b \<notin> oa" and "Account_Type (aAccount b) \<noteq> EQUITY"
    by (simp_all add: IsOpen_def)
next
  assume h: "c \<in> set (Closings d) \<and> cAccount c \<notin> oa"
  show "\<exists>e. processClosings oa am d = Inl e"
  proof (cases "processClosings oa am d")
    case (Inl e)
    then show ?thesis by blast
  next
    case (Inr st)
    obtain oa' am' where "st = (oa', am')" by (cases st)
    with Inr closings_loop_Inr[of oa am "Closings d" oa' am'] h show ?thesis
      unfolding processClosings_def by auto
  qed
qed

text \<open>
  At concrete days, with \<^verbatim>\<open>Equity:Opening\<close> never opened: it is open for a posting;
  a posting, a value and an assertion on accounts that are neither open nor EQUITY fail;
  and its close fails.
\<close>

theorem C5_equity_open_witness:
  "Account_Type ex_equity = EQUITY \<and> IsOpen {} ex_equity \<and>
   processTransactions {ex_cash} []
     ((ex_day 1)\<lparr>Transactions :=
        [ex_transaction 1 ''Opening balance'' [NewPosting ex_equity ex_cash ex_usd 500]]\<rparr>)
   = Inr [((ex_equity, ex_usd), - 500), ((ex_cash, ex_usd), 500)] \<and>
   processTransactions {ex_cash} []
     ((ex_day 1)\<lparr>Transactions :=
        [ex_transaction 1 ''Pay'' [NewPosting ex_salary ex_cash ex_usd 100]]\<rparr>)
   = Inl (CreditNotOpen (ex_transaction 1 ''Pay'' [NewPosting ex_salary ex_cash ex_usd 100]) ex_salary) \<and>
   processValues ex_ctx {} [] ((ex_day 1)\<lparr>Values := [ex_value 1 ex_cash 80 ex_usd]\<rparr>)
   = Inl (ValueNotOpen (ex_value 1 ex_cash 80 ex_usd)) \<and>
   processAssertions {} []
     ((ex_day 1)\<lparr>Assertions := [\<lparr>aRange = ([], 0, 0), aDate = 1, aAccount = ex_cash,
                                  aAmount = 0, aCommodity = ex_usd\<rparr>]\<rparr>)
   = Inl (AssertionNotOpen \<lparr>aRange = ([], 0, 0), aDate = 1, aAccount = ex_cash,
                            aAmount = 0, aCommodity = ex_usd\<rparr>) \<and>
   ex_close 1 ex_equity \<in> set (Closings ((ex_day 1)\<lparr>Closings := [ex_close 1 ex_equity]\<rparr>)) \<and>
   cAccount (ex_close 1 ex_equity) \<notin> {} \<and>
   processClosings {} [] ((ex_day 1)\<lparr>Closings := [ex_close 1 ex_equity]\<rparr>)
   = Inl (AlreadyClosed ex_equity)"
  using C5_equity_open[of ex_equity "{}" "[]"
      "(ex_day 1)\<lparr>Closings := [ex_close 1 ex_equity]\<rparr>"
      "ex_transaction 1 ''Pay'' [NewPosting ex_salary ex_cash ex_usd 100]" ex_salary ex_ctx
      "ex_value 1 ex_cash 80 ex_usd"
      "\<lparr>aRange = ([], 0, 0), aDate = 1, aAccount = ex_cash, aAmount = 0, aCommodity = ex_usd\<rparr>"
      "ex_close 1 ex_equity"]
  by (simp add: balancer_eval)

text \<open>
  The claim as stated includes the check made for a close. It fails there: the close of
  the never-opened EQUITY account \<^verbatim>\<open>Equity:Opening\<close> is an error.
\<close>

theorem C5_close_equity_counterexample:
  "Account_Type ex_equity = EQUITY \<and>
   Process2 ex_ctx [(ex_day 1)\<lparr>Closings := [ex_close 1 ex_equity]\<rparr>]
   = Inl (AlreadyClosed ex_equity)"
  by (simp add: balancer_eval)


section \<open>The order of the transactions of an emitted day\<close>

text \<open>
  C8. The claim is that the balancer re-sorts the transactions of a day after it has
  synthesised the value adjustments. \<^verbatim>\<open>Process2\<close> appends them and sorts nothing: on
  a day with the transaction \<^verbatim>\<open>Wages\<close> and a value directive, the emitted day lists
  \<^verbatim>\<open>Wages\<close> before the adjustment, although the adjustment is less than \<^verbatim>\<open>Wages\<close>
  in the order on transactions (same date, smaller description).
\<close>

theorem C8_Process2_out_of_order:
  "Process2 ex_ctx
     [(ex_day 1)\<lparr>Openings := [ex_open 1 ex_cash, ex_open 1 ex_salary],
                  Transactions := [ex_transaction 1 ''Wages'' [NewPosting ex_salary ex_cash ex_usd 100]],
                  Values := [ex_value 1 ex_cash 120 ex_usd]\<rparr>]
   = Inr (({ex_salary, ex_cash},
           [((ex_salary, ex_usd), - 100), ((ex_cash, ex_usd), 120),
            ((MkAccount EQUITY ''Equity:Valuation:Assets:Cash'', ex_usd), - 20)]),
          [(ex_day 1)\<lparr>Openings := [ex_open 1 ex_cash, ex_open 1 ex_salary],
                  Transactions :=
                    [ex_transaction 1 ''Wages'' [NewPosting ex_salary ex_cash ex_usd 100],
                     ex_transaction 1 ''Valuation adjustment for USD in Assets:Cash''
                       [NewPostingWithTargets (MkAccount EQUITY ''Equity:Valuation:Assets:Cash'')
                          ex_cash ex_usd 20 [ex_usd]]],
                  Values := [ex_value 1 ex_cash 120 ex_usd],
                  Amounts := [((ex_salary, ex_usd), - 100), ((ex_cash, ex_usd), 120),
                     ((MkAccount EQUITY ''Equity:Valuation:Assets:Cash'', ex_usd), - 20)]\<rparr>]) \<and>
   Transaction_Less
     (ex_transaction 1 ''Valuation adjustment for USD in Assets:Cash''
        [NewPostingWithTargets (MkAccount EQUITY ''Equity:Valuation:Assets:Cash'')
           ex_cash ex_usd 20 [ex_usd]])
     (ex_transaction 1 ''Wages'' [NewPosting ex_salary ex_cash ex_usd 100])
   = Some True"
  by (simp add: balancer_eval Transaction_Less_def)



section \<open>The filter of the AST assembler\<close>

lemma filed_AddOpen [simp]: "filed (AddOpen ast x) d = filed ast d"
  by (auto simp: filed_def AddOpen_def AST_Day_def Let_def split: option.splits)

lemma filed_AddPrice [simp]: "filed (AddPrice ast x) d = filed ast d"
  by (auto simp: filed_def AddPrice_def AST_Day_def Let_def split: option.splits)

lemma filed_AddTransaction [simp]: "filed (AddTransaction ast x) d = filed ast d"
  by (auto simp: filed_def AddTransaction_def AST_Day_def Let_def split: option.splits)

lemma filed_AddAssertion:
  "filed (AddAssertion ast x) d =
     (case filed ast d of (as, vs, cs) \<Rightarrow> (as @ (if aDate x = d then [x] else []), vs, cs))"
  by (auto simp: filed_def AddAssertion_def AST_Day_def Let_def split: option.splits)

lemma filed_AddValue:
  "filed (AddValue ast x) d =
     (case filed ast d of (as, vs, cs) \<Rightarrow> (as, vs @ (if vDate x = d then [x] else []), cs))"
  by (auto simp: filed_def AddValue_def AST_Day_def Let_def split: option.splits)

lemma filed_AddClose:
  "filed (AddClose ast x) d =
     (case filed ast d of (as, vs, cs) \<Rightarrow> (as, vs, cs @ (if cDate x = d then [x] else [])))"
  by (auto simp: filed_def AddClose_def AST_Day_def Let_def split: option.splits)

lemma filed_fold_AddTransaction [simp]:
  "filed (fold (\<lambda>ts ast'. AddTransaction ast' ts) tss ast) d = filed ast d"
  by (induction tss arbitrary: ast) simp_all

lemma filed_Source2_addOns:
  "Source2_addOns Periods ast t as = Inr ast' \<Longrightarrow> filed ast' d = filed ast d"
proof (induction Periods ast t as rule: Source2_addOns.induct)
  case (1 Periods ast t)
  then show ?case by simp
next
  case (2 Periods ast t acc rest)
  then show ?case by (auto split: sum.splits)
next
  case (3 Periods ast t rest)
  then show ?case by simp
qed

lemma filed_Source2_directive:
  "Source2_directive Periods f ast x = Inr ast' \<Longrightarrow>
   filed ast' d =
     (case filed ast d of (as, vs, cs) \<Rightarrow>
        (as @ [a \<leftarrow> stream_assertions [x].
                 aDate a = d \<and> MatchAccount f (aAccount a) \<and> MatchCommodity f (aCommodity a)],
         vs @ [v \<leftarrow> stream_values [x].
                 vDate v = d \<and> MatchAccount f (vAccount v) \<and> MatchCommodity f (vCommodity v)],
         cs @ [c \<leftarrow> stream_closes [x]. cDate c = d \<and> MatchAccount f (cAccount c)]))"
proof (cases x)
  case (DTransaction t)
  assume "Source2_directive Periods f ast x = Inr ast'"
  with DTransaction have "filed ast' d = filed ast d"
    by (auto simp: Let_def filed_Source2_addOns split: if_splits)
  with DTransaction show ?thesis by (simp split: prod.splits)
qed (auto simp: filed_AddAssertion filed_AddValue filed_AddClose split: prod.splits if_splits)

lemma stream_append_single:
  "stream_closes (x # ds) = stream_closes [x] @ stream_closes ds"
  "stream_assertions (x # ds) = stream_assertions [x] @ stream_assertions ds"
  "stream_values (x # ds) = stream_values [x] @ stream_values ds"
  by (cases x; simp)+

lemma filed_Source2_loop:
  "Source2_loop Periods f ast ds = Inr ast' \<Longrightarrow>
   filed ast' d =
     (case filed ast d of (as, vs, cs) \<Rightarrow>
        (as @ [a \<leftarrow> stream_assertions ds.
                 aDate a = d \<and> MatchAccount f (aAccount a) \<and> MatchCommodity f (aCommodity a)],
         vs @ [v \<leftarrow> stream_values ds.
                 vDate v = d \<and> MatchAccount f (vAccount v) \<and> MatchCommodity f (vCommodity v)],
         cs @ [c \<leftarrow> stream_closes ds. cDate c = d \<and> MatchAccount f (cAccount c)]))"
proof (induction ds arbitrary: ast)
  case Nil
  then show ?case by (simp split: prod.splits)
next
  case (Cons x ds)
  from Cons.prems obtain ast1 where 1: "Source2_directive Periods f ast x = Inr ast1"
    and 2: "Source2_loop Periods f ast1 ds = Inr ast'"
    by (auto split: sum.splits)
  show ?case
    unfolding Cons.IH[OF 2] filed_Source2_directive[OF 1] stream_append_single[of x ds]
    by (simp split: prod.splits)
qed

text \<open>
  C10. When \<^verbatim>\<open>Source2\<close> has read the whole stream, the closings of the day of any
  date are the Close directives of the stream with that date whose account matches the
  account predicate, in the order of the stream: a Close is retained exactly when its
  account matches, and the commodity predicate plays no part (replacing it changes
  nothing in the handling of a Close). The assertions and the values of the day are the
  Assertion and Value directives of that date whose account and commodity both match.
\<close>

theorem C10_filter:
  assumes "Source2 Periods f ds = Inr ast"
  shows "Closings (AST_Day ast d) =
           [c \<leftarrow> stream_closes ds. cDate c = d \<and> MatchAccount f (cAccount c)] \<and>
         Assertions (AST_Day ast d) =
           [a \<leftarrow> stream_assertions ds.
              aDate a = d \<and> MatchAccount f (aAccount a) \<and> MatchCommodity f (aCommodity a)] \<and>
         Values (AST_Day ast d) =
           [v \<leftarrow> stream_values ds.
              vDate v = d \<and> MatchAccount f (vAccount v) \<and> MatchCommodity f (vCommodity v)] \<and>
         Source2_directive Periods (f\<lparr>MatchCommodity := g\<rparr>) ast0 (DClose c) =
           Source2_directive Periods f ast0 (DClose c)"
proof -
  have "filed Map.empty d = ([], [], [])" by (simp add: filed_def AST_Day_def)
  with filed_Source2_loop[OF assms[unfolded Source2_def], of d]
  show ?thesis by (simp add: filed_def)
qed


text \<open>
  At a concrete stream, with a filter that matches \<^verbatim>\<open>Assets:Cash\<close> and no commodity:
  the close is retained, the assertion and the value on the same account are dropped.
\<close>

theorem C10_filter_witness:
  "Source2 (\<lambda>t0 t1 i. []) \<lparr>MatchAccount = (\<lambda>a. a = ex_cash), MatchCommodity = (\<lambda>c. False)\<rparr>
     [DAssertion \<lparr>aRange = ([], 0, 0), aDate = 3, aAccount = ex_cash, aAmount = 0,
                  aCommodity = ex_usd\<rparr>,
      DValue (ex_value 3 ex_cash 0 ex_usd),
      DClose (ex_close 3 ex_cash),
      DClose (ex_close 3 ex_salary)]
   = Inr [3 \<mapsto> (ex_day 3)\<lparr>Closings := [ex_close 3 ex_cash]\<rparr>] \<and>
   Closings (AST_Day [3 \<mapsto> (ex_day 3)\<lparr>Closings := [ex_close 3 ex_cash]\<rparr>] 3) = [ex_close 3 ex_cash] \<and>
   Assertions (AST_Day [3 \<mapsto> (ex_day 3)\<lparr>Closings := [ex_close 3 ex_cash]\<rparr>] 3) = [] \<and>
   Values (AST_Day [3 \<mapsto> (ex_day 3)\<lparr>Closings := [ex_close 3 ex_cash]\<rparr>] 3) = []"
proof -
  have run: "Source2 (\<lambda>t0 t1 i. []) \<lparr>MatchAccount = (\<lambda>a. a = ex_cash), MatchCommodity = (\<lambda>c. False)\<rparr>
     [DAssertion \<lparr>aRange = ([], 0, 0), aDate = 3, aAccount = ex_cash, aAmount = 0,
                  aCommodity = ex_usd\<rparr>,
      DValue (ex_value 3 ex_cash 0 ex_usd),
      DClose (ex_close 3 ex_cash),
      DClose (ex_close 3 ex_salary)]
   = Inr [3 \<mapsto> (ex_day 3)\<lparr>Closings := [ex_close 3 ex_cash]\<rparr>]"
    by (simp add: Source2_def AddClose_def AST_Day_def)
  from C10_filter[OF run, of 3] run show ?thesis by simp
qed


section \<open>Accrual expansion\<close>











section \<open>Valuation gains\<close>

lemma Amounts_Amount_Add:
  "Amounts_Amount (Amounts_Add am key x) a k =
     Amounts_Amount am a k + (if key = (a, k) then x else 0)"
  by (auto simp: Amounts_Add_def Amounts_Amount_def update_conv')

lemma valuateGains_loop_untouched:
  assumes "valuateGains_loop jctx v d vals es = Inr (d', vals')"
    and "(a, k) \<notin> fst ` set es" and "\<forall>b. ValuationAccountFor jctx b \<noteq> a"
  shows "Amounts_Amount vals' a k = Amounts_Amount vals a k"
  using assms(1,2)
proof (induction es arbitrary: d vals)
  case Nil
  then show ?case by simp
next
  case (Cons e es)
  obtain pos amt where e: "e = (pos, amt)" by (cases e)
  from Cons.prems(2) e have ne: "pos \<noteq> (a, k)" and rest: "(a, k) \<notin> fst ` set es" by auto
  from assms(3) have nc: "(ValuationAccountFor jctx (fst pos), snd pos) \<noteq> (a, k)" by simp
  show ?case
  proof (cases "snd pos \<noteq> v \<and> isAL (fst pos)")
    case False
    with Cons.prems(1) e have "valuateGains_loop jctx v d vals es = Inr (d', vals')"
      by (auto split: if_splits)
    from Cons.IH[OF this rest] show ?thesis .
  next
    case True
    with Cons.prems(1) e obtain val where val: "Normalized_Valuate d (snd pos) amt = Inr val"
      by (auto split: sum.splits)
    let ?gain = "val - Amounts_Amount vals (fst pos) (snd pos)"
    show ?thesis
    proof (cases "?gain = 0")
      case g0: True
      with True val Cons.prems(1) e have "valuateGains_loop jctx v d vals es = Inr (d', vals')"
        by simp
      from Cons.IH[OF this rest] show ?thesis .
    next
      case g: False
      let ?values1 = "Amounts_Add (Amounts_Add vals pos ?gain)
                        (ValuationAccountFor jctx (fst pos), snd pos) (- ?gain)"
      let ?d1 = "d\<lparr>jTransactions := jTransactions d @ [gain_transaction jctx d pos ?gain]\<rparr>"
      from g True val Cons.prems(1) e
      have "valuateGains_loop jctx v ?d1 ?values1 es = Inr (d', vals')"
        by (simp add: Let_def)
      from Cons.IH[OF this rest]
      have "Amounts_Amount vals' a k = Amounts_Amount ?values1 a k" .
      also have "\<dots> = Amounts_Amount vals a k"
        using ne nc by (auto simp: Amounts_Amount_Add)
      finally show ?thesis .
    qed
  qed
qed

lemma gain_transaction_day:
  "jDate d1 = jDate d \<Longrightarrow> gain_transaction jctx d1 pos g = gain_transaction jctx d pos g"
  by (simp add: gain_transaction_def)

lemma valuateGains_loop_result:
  assumes "\<forall>b. \<not> isAL (ValuationAccountFor jctx b)"
  shows "distinct (map fst es) \<Longrightarrow> valuateGains_loop jctx v d vals es = Inr (d', vals') \<Longrightarrow>
     jTransactions d' =
       jTransactions d @
       map (\<lambda>e. gain_transaction jctx d (fst e) (position_gain d vals e))
         (filter (\<lambda>e. valuated v e \<and> position_gain d vals e \<noteq> 0) es) \<and>
     (\<forall>e\<in>set es. valuated v e \<longrightarrow>
        Normalized_Valuate d (snd (fst e)) (snd e) =
          Inr (Amounts_Amount vals' (fst (fst e)) (snd (fst e))))"
proof (induction es arbitrary: d vals)
  case Nil
  then show ?case by simp
next
  case (Cons e es)
  obtain a k amt where e: "e = ((a, k), amt)" by (cases e) auto
  from Cons.prems(1) e have notin: "(a, k) \<notin> fst ` set es" and dist: "distinct (map fst es)"
    by auto
  show ?case
  proof (cases "valuated v e")
    case False
    with Cons.prems(2) e have run: "valuateGains_loop jctx v d vals es = Inr (d', vals')"
      by (auto simp: valuated_def split: if_splits)
    from Cons.IH[OF dist run] False show ?thesis by simp
  next
    case True
    then have kv: "k \<noteq> v" and al: "isAL a" by (simp_all add: valuated_def e)
    from al assms have nv: "\<forall>b. ValuationAccountFor jctx b \<noteq> a" by auto
    from kv al Cons.prems(2) e obtain val where val: "Normalized_Valuate d k amt = Inr val"
      by (auto split: sum.splits)
    let ?gain = "val - Amounts_Amount vals a k"
    have pg: "position_gain d vals e = ?gain" by (simp add: position_gain_def e val)
    show ?thesis
    proof (cases "?gain = 0")
      case g0: True
      with kv al val Cons.prems(2) e have run: "valuateGains_loop jctx v d vals es = Inr (d', vals')"
        by simp
      from valuateGains_loop_untouched[OF run notin nv] g0
      have "Amounts_Amount vals' a k = val" by simp
      with Cons.IH[OF dist run] pg g0 val show ?thesis by (simp add: e)
    next
      case g: False
      let ?credit = "ValuationAccountFor jctx a"
      let ?vals1 = "Amounts_Add (Amounts_Add vals (a, k) ?gain) (?credit, k) (- ?gain)"
      let ?d1 = "d\<lparr>jTransactions := jTransactions d @ [gain_transaction jctx d (a, k) ?gain]\<rparr>"
      from g kv al val Cons.prems(2) e
      have run: "valuateGains_loop jctx v ?d1 ?vals1 es = Inr (d', vals')"
        by (simp add: Let_def)
      from nv have cne: "?credit \<noteq> a" by simp
      have head: "Amounts_Amount vals' a k = val"
        using valuateGains_loop_untouched[OF run notin nv] cne
        by (simp add: Amounts_Amount_Add)
      have same: "position_gain ?d1 ?vals1 e' = position_gain d vals e'"
        if "e' \<in> set es" and "valuated v e'" for e'
      proof -
        obtain a' k' x' where e': "e' = ((a', k'), x')" by (cases e') auto
        from that(1) notin e' have "(a', k') \<noteq> (a, k)" by force
        moreover from that(2) e' assms have "(?credit, k) \<noteq> (a', k')"
          by (auto simp: valuated_def)
        ultimately have "Amounts_Amount ?vals1 a' k' = Amounts_Amount vals a' k'"
          by (auto simp: Amounts_Amount_Add)
        then show ?thesis by (simp add: position_gain_def e' split: sum.splits)
      qed
      have filt: "filter (\<lambda>e. valuated v e \<and> position_gain ?d1 ?vals1 e \<noteq> 0) es =
                  filter (\<lambda>e. valuated v e \<and> position_gain d vals e \<noteq> 0) es"
      proof (rule filter_cong[OF refl])
        fix x
        assume "x \<in> set es"
        with same[of x] show "(valuated v x \<and> position_gain ?d1 ?vals1 x \<noteq> 0) =
                              (valuated v x \<and> position_gain d vals x \<noteq> 0)"
          by (cases "valuated v x") simp_all
      qed
      have mp: "map (\<lambda>e. gain_transaction jctx ?d1 (fst e) (position_gain ?d1 ?vals1 e))
                  (filter (\<lambda>e. valuated v e \<and> position_gain d vals e \<noteq> 0) es) =
                map (\<lambda>e. gain_transaction jctx d (fst e) (position_gain d vals e))
                  (filter (\<lambda>e. valuated v e \<and> position_gain d vals e \<noteq> 0) es)"
      proof (rule map_cong[OF refl])
        fix x
        assume "x \<in> set (filter (\<lambda>e. valuated v e \<and> position_gain d vals e \<noteq> 0) es)"
        then have "x \<in> set es" and "valuated v x" by simp_all
        from same[OF this] have "position_gain ?d1 ?vals1 x = position_gain d vals x" .
        moreover have "gain_transaction jctx ?d1 (fst x) (position_gain d vals x) =
                       gain_transaction jctx d (fst x) (position_gain d vals x)"
          by (rule gain_transaction_day) simp
        ultimately show "gain_transaction jctx ?d1 (fst x) (position_gain ?d1 ?vals1 x) =
                         gain_transaction jctx d (fst x) (position_gain d vals x)"
          by (simp only:)
      qed
      from Cons.IH[OF dist run]
      have txs: "jTransactions d' = jTransactions ?d1 @
           map (\<lambda>e. gain_transaction jctx ?d1 (fst e) (position_gain ?d1 ?vals1 e))
             (filter (\<lambda>e. valuated v e \<and> position_gain ?d1 ?vals1 e \<noteq> 0) es)"
        and rest: "\<forall>e\<in>set es. valuated v e \<longrightarrow>
           Normalized_Valuate ?d1 (snd (fst e)) (snd e) =
             Inr (Amounts_Amount vals' (fst (fst e)) (snd (fst e)))"
        by blast+
      from txs have "jTransactions d' = jTransactions d @
           map (\<lambda>e. gain_transaction jctx d (fst e) (position_gain d vals e))
             (filter (\<lambda>e. valuated v e \<and> position_gain d vals e \<noteq> 0) (e # es))"
        unfolding filt mp using True pg g by (simp add: e)
      moreover from rest head val
      have "\<forall>e\<in>set (e # es). valuated v e \<longrightarrow>
           Normalized_Valuate d (snd (fst e)) (snd e) =
             Inr (Amounts_Amount vals' (fst (fst e)) (snd (fst e)))"
        by (simp add: e)
      ultimately show ?thesis by blast
    qed
  qed
qed

lemma valuateGains_loop_credit:
  assumes "\<forall>b. \<not> isAL (ValuationAccountFor jctx b)" and "\<not> isAL c"
  shows "distinct (map fst es) \<Longrightarrow> valuateGains_loop jctx v d vals es = Inr (d', vals') \<Longrightarrow>
     Amounts_Amount vals' c k =
       Amounts_Amount vals c k -
       sum_list (map (position_gain d vals)
         (filter (\<lambda>e. valuated v e \<and> ValuationAccountFor jctx (fst (fst e)) = c \<and>
                      snd (fst e) = k) es))"
proof (induction es arbitrary: d vals)
  case Nil
  then show ?case by simp
next
  case (Cons e es)
  obtain a k0 amt where e: "e = ((a, k0), amt)" by (cases e) auto
  from Cons.prems(1) e have notin: "(a, k0) \<notin> fst ` set es" and dist: "distinct (map fst es)"
    by auto
  let ?sel = "\<lambda>e. valuated v e \<and> ValuationAccountFor jctx (fst (fst e)) = c \<and> snd (fst e) = k"
  show ?case
  proof (cases "valuated v e")
    case False
    with Cons.prems(2) e have run: "valuateGains_loop jctx v d vals es = Inr (d', vals')"
      by (auto simp: valuated_def split: if_splits)
    from Cons.IH[OF dist run] False show ?thesis by simp
  next
    case True
    then have kv: "k0 \<noteq> v" and al: "isAL a" by (simp_all add: valuated_def e)
    from al assms(2) have ca: "c \<noteq> a" by auto
    from kv al Cons.prems(2) e obtain val where val: "Normalized_Valuate d k0 amt = Inr val"
      by (auto split: sum.splits)
    let ?gain = "val - Amounts_Amount vals a k0"
    have pg: "position_gain d vals e = ?gain" by (simp add: position_gain_def e val)
    show ?thesis
    proof (cases "?gain = 0")
      case g0: True
      with kv al val Cons.prems(2) e have run: "valuateGains_loop jctx v d vals es = Inr (d', vals')"
        by simp
      from Cons.IH[OF dist run] pg g0 show ?thesis by simp
    next
      case g: False
      let ?credit = "ValuationAccountFor jctx a"
      let ?vals1 = "Amounts_Add (Amounts_Add vals (a, k0) ?gain) (?credit, k0) (- ?gain)"
      let ?d1 = "d\<lparr>jTransactions := jTransactions d @ [gain_transaction jctx d (a, k0) ?gain]\<rparr>"
      from g kv al val Cons.prems(2) e
      have run: "valuateGains_loop jctx v ?d1 ?vals1 es = Inr (d', vals')"
        by (simp add: Let_def)
      have same: "position_gain ?d1 ?vals1 e' = position_gain d vals e'"
        if "e' \<in> set es" and "valuated v e'" for e'
      proof -
        obtain a' k' x' where e': "e' = ((a', k'), x')" by (cases e') auto
        from that(1) notin e' have "(a', k') \<noteq> (a, k0)" by force
        moreover from that(2) e' assms(1) have "(?credit, k0) \<noteq> (a', k')"
          by (auto simp: valuated_def)
        ultimately have "Amounts_Amount ?vals1 a' k' = Amounts_Amount vals a' k'"
          by (auto simp: Amounts_Amount_Add)
        then show ?thesis by (simp add: position_gain_def e' split: sum.splits)
      qed
      have mp: "map (position_gain ?d1 ?vals1) (filter ?sel es) =
                map (position_gain d vals) (filter ?sel es)"
      proof (rule map_cong[OF refl])
        fix x
        assume "x \<in> set (filter ?sel es)"
        then have "x \<in> set es" and "valuated v x" by simp_all
        from same[OF this] show "position_gain ?d1 ?vals1 x = position_gain d vals x" .
      qed
      have first: "Amounts_Amount ?vals1 c k =
            Amounts_Amount vals c k - (if ?credit = c \<and> k0 = k then ?gain else 0)"
        using ca by (auto simp: Amounts_Amount_Add)
      from Cons.IH[OF dist run]
      have "Amounts_Amount vals' c k =
              Amounts_Amount ?vals1 c k - sum_list (map (position_gain ?d1 ?vals1) (filter ?sel es))" .
      then have step: "Amounts_Amount vals' c k =
              Amounts_Amount vals c k - (if ?credit = c \<and> k0 = k then ?gain else 0) -
              sum_list (map (position_gain d vals) (filter ?sel es))"
        unfolding mp first .
      show ?thesis
      proof (cases "?credit = c \<and> k0 = k")
        case yes: True
        with True have "filter ?sel (e # es) = e # filter ?sel es" by (simp add: e)
        with step yes pg show ?thesis by simp
      next
        case no: False
        then have "filter ?sel (e # es) = filter ?sel es" by (auto simp: e)
        with step no show ?thesis by simp
      qed
    qed
  qed
qed

text \<open>
  C6. Let the amounts hold each position once, let no valuation account be an asset or
  liability account (they are EQUITY accounts), and let \<^verbatim>\<open>valuateGains\<close> succeed for the
  valuation commodity \<open>v\<close>. Then the transactions appended to the day are, in the order
  of the positions, one for each asset or liability position \<open>(a, k)\<close> with \<open>k \<noteq> v\<close>
  whose gain is not zero, and no other: dated on the day, described
  \<^verbatim>\<open>Adjust value of <k> in account <a>\<close>, with the one posting from the valuation
  account of \<open>a\<close> to \<open>a\<close> in commodity \<open>k\<close>, amount 0 and value the gain. For each such
  position the valuation of its amount succeeds, the gain is that value less the running
  value of the position, and the running value of the position is increased by the gain.
  The running value of every other account \<open>c\<close> in a commodity \<open>k\<close> is decreased by the
  gains of the positions in \<open>k\<close> whose valuation account is \<open>c\<close>.
\<close>

theorem C6_valuation_gains:
  assumes "distinct (map fst amounts)"
    and "\<forall>b. \<not> isAL (ValuationAccountFor jctx b)"
    and "valuateGains jctx v amounts vals d = Inr (d', vals')"
  shows "jTransactions d' =
           jTransactions d @
           map (\<lambda>e. \<lparr>tbDate = jDate d,
                     tbDescription = ''Adjust value of '' @ Commodity_String (snd (fst e)) @
                                     '' in account '' @ Account_Name (fst (fst e)),
                     tbPostings = \<lparr>pbCredit = ValuationAccountFor jctx (fst (fst e)),
                                    pbDebit = fst (fst e), pbCommodity = snd (fst e),
                                    pbAmount = 0, pbValue = position_gain d vals e,
                                    pbTargets = [snd (fst e)]\<rparr>\<rparr>)
             (filter (\<lambda>e. valuated v e \<and> position_gain d vals e \<noteq> 0) amounts) \<and>
         (\<forall>e\<in>set amounts. valuated v e \<longrightarrow>
            (\<exists>val. Normalized_Valuate d (snd (fst e)) (snd e) = Inr val \<and>
               position_gain d vals e = val - Amounts_Amount vals (fst (fst e)) (snd (fst e)) \<and>
               Amounts_Amount vals' (fst (fst e)) (snd (fst e)) =
                 Amounts_Amount vals (fst (fst e)) (snd (fst e)) + position_gain d vals e)) \<and>
         (\<forall>c k. \<not> isAL c \<longrightarrow>
            Amounts_Amount vals' c k =
              Amounts_Amount vals c k -
              sum_list (map (position_gain d vals)
                (filter (\<lambda>e. valuated v e \<and> ValuationAccountFor jctx (fst (fst e)) = c \<and>
                             snd (fst e) = k) amounts)))"
proof (intro conjI ballI allI impI)
  note run = assms(3)[unfolded valuateGains_def]
  note R = valuateGains_loop_result[OF assms(2) assms(1) run]
  from R show "jTransactions d' =
           jTransactions d @
           map (\<lambda>e. \<lparr>tbDate = jDate d,
                     tbDescription = ''Adjust value of '' @ Commodity_String (snd (fst e)) @
                                     '' in account '' @ Account_Name (fst (fst e)),
                     tbPostings = \<lparr>pbCredit = ValuationAccountFor jctx (fst (fst e)),
                                    pbDebit = fst (fst e), pbCommodity = snd (fst e),
                                    pbAmount = 0, pbValue = position_gain d vals e,
                                    pbTargets = [snd (fst e)]\<rparr>\<rparr>)
             (filter (\<lambda>e. valuated v e \<and> position_gain d vals e \<noteq> 0) amounts)"
    by (simp add: gain_transaction_def)
  {
    fix e
    assume e: "e \<in> set amounts" and v: "valuated v e"
    with R have val: "Normalized_Valuate d (snd (fst e)) (snd e) =
        Inr (Amounts_Amount vals' (fst (fst e)) (snd (fst e)))"
      by blast
    then have "position_gain d vals e =
        Amounts_Amount vals' (fst (fst e)) (snd (fst e)) -
        Amounts_Amount vals (fst (fst e)) (snd (fst e))"
      by (simp add: position_gain_def)
    with val show "\<exists>val. Normalized_Valuate d (snd (fst e)) (snd e) = Inr val \<and>
               position_gain d vals e = val - Amounts_Amount vals (fst (fst e)) (snd (fst e)) \<and>
               Amounts_Amount vals' (fst (fst e)) (snd (fst e)) =
                 Amounts_Amount vals (fst (fst e)) (snd (fst e)) + position_gain d vals e"
      by simp
  }
  fix c k
  assume "\<not> isAL c"
  from valuateGains_loop_credit[OF assms(2) this assms(1) run]
  show "Amounts_Amount vals' c k =
              Amounts_Amount vals c k -
              sum_list (map (position_gain d vals)
                (filter (\<lambda>e. valuated v e \<and> ValuationAccountFor jctx (fst (fst e)) = c \<and>
                             snd (fst e) = k) amounts))" .
qed

text \<open>
  At the day of scenario S5: \<^verbatim>\<open>Assets:Foreign\<close> holds 100 EUR valued 110 USD so far,
  and the price of EUR is now 1.2 USD. The gain is 10.
\<close>

theorem C6_valuation_gains_witness:
  "distinct (map fst [((ex_foreign, ex_eur), 100 :: Decimal), ((ex_cash, ex_usd), 50)]) \<and>
   (\<forall>b. \<not> isAL (ValuationAccountFor ex_ctx b)) \<and>
   valuateGains ex_ctx ex_usd [((ex_foreign, ex_eur), 100), ((ex_cash, ex_usd), 50)]
     [((ex_foreign, ex_eur), 110), ((ex_cash, ex_usd), 50)] ex_jday
   = Inr (ex_jday\<lparr>jTransactions :=
            [\<lparr>tbDate = 3, tbDescription = ''Adjust value of EUR in account Assets:Foreign'',
              tbPostings = \<lparr>pbCredit = MkAccount EQUITY ''Equity:Valuation:Assets:Foreign'',
                             pbDebit = ex_foreign, pbCommodity = ex_eur, pbAmount = 0,
                             pbValue = 10, pbTargets = [ex_eur]\<rparr>\<rparr>]\<rparr>,
          [((ex_foreign, ex_eur), 120), ((ex_cash, ex_usd), 50),
           ((MkAccount EQUITY ''Equity:Valuation:Assets:Foreign'', ex_eur), - 10)]) \<and>
   position_gain ex_jday [((ex_foreign, ex_eur), 110), ((ex_cash, ex_usd), 50)]
     ((ex_foreign, ex_eur), 100) = 10"
  using C6_valuation_gains[of "[((ex_foreign, ex_eur), 100), ((ex_cash, ex_usd), 50)]" ex_ctx ex_usd
      "[((ex_foreign, ex_eur), 110), ((ex_cash, ex_usd), 50)]" ex_jday
      "ex_jday\<lparr>jTransactions :=
            [\<lparr>tbDate = 3, tbDescription = ''Adjust value of EUR in account Assets:Foreign'',
              tbPostings = \<lparr>pbCredit = MkAccount EQUITY ''Equity:Valuation:Assets:Foreign'',
                             pbDebit = ex_foreign, pbCommodity = ex_eur, pbAmount = 0,
                             pbValue = 10, pbTargets = [ex_eur]\<rparr>\<rparr>]\<rparr>"
      "[((ex_foreign, ex_eur), 120), ((ex_cash, ex_usd), 50),
           ((MkAccount EQUITY ''Equity:Valuation:Assets:Foreign'', ex_eur), - 10)]"]
  by (simp add: valuateGains_def isAL_def Amounts_Amount_def Amounts_Add_def gain_transaction_def
        position_gain_def Let_def)


end
